theory Spec2Isabelle
  imports
    Complex_Main
    "HOL-Library.Char_ord"
    "HOL-Library.List_Lexorder"
    "HOL-Library.Product_Lexorder"
    "HOL-Library.Multiset"
begin

section \<open>The concept graph and the hidden Markov model of the math tutor\<close>

text \<open>
  A shallow embedding of \<^verbatim>\<open>backend/app.py\<close> (\<^verbatim>\<open>Concept\<close>,
  \<^verbatim>\<open>MathKnowledgeBase._build_network\<close>) and of
  \<^verbatim>\<open>backend/hidden_markov_model.py\<close> (\<^verbatim>\<open>MathConceptHMM\<close>).

  Conventions of the embedding.
  \<^item> Python floats are modelled by \<^typ>\<open>real\<close>: every product, quotient and sum is
    the exact one. Rounding, overflow and underflow are outside the model.
  \<^item> A Python \<^verbatim>\<open>str\<close> is a \<^typ>\<open>string\<close>; a character is its code point, so the
    model covers text over the code points 0..255. The order on strings is Python's:
    lexicographic by code point.
  \<^item> An exception is a value of \<open>error\<close>; a function that can raise returns
    \<open>error + 'a\<close>.
  \<^item> The concept table (a \<^verbatim>\<open>dict\<close> literal in the source) is an association list
    in insertion order; it stands for a \<^verbatim>\<open>dict\<close> when its keys are distinct.
    The other dictionaries are only looked up by key and are maps.
\<close>

datatype error = ZeroDivisionError | KeyError | IndexError | ValueError

subsection \<open>Concepts and the prerequisite network\<close>

text \<open>The field \<^verbatim>\<open>template_params\<close> is used by the practice-test generator only.\<close>

record Concept =
  name :: string
  "keywords" :: "string list"
  prerequisites :: "string list"
  difficulty :: real
  probability :: real

record node =
  children :: "string list"
  parents :: "string list"

type_synonym concept_table = "(string \<times> Concept) list"
type_synonym network = "string \<rightharpoonup> node"

text \<open>The body of the inner loop of \<^verbatim>\<open>_build_network\<close>, for one prerequisite.\<close>

definition add_prereq :: "string \<Rightarrow> string \<Rightarrow> network \<Rightarrow> network" where
  "add_prereq concept_name prereq net =
     (case net prereq of
        Some nd \<Rightarrow> net(prereq \<mapsto> nd\<lparr>children := children nd @ [concept_name]\<rparr>)
      | None \<Rightarrow> net(prereq \<mapsto> \<lparr>children = [concept_name], parents = []\<rparr>))"

text \<open>The body of the outer loop, for one item of the table.\<close>

definition add_concept :: "string \<times> Concept \<Rightarrow> network \<Rightarrow> network" where
  "add_concept item net =
     fold (add_prereq (fst item)) (prerequisites (snd item))
       (net(fst item \<mapsto> \<lparr>children = [], parents = prerequisites (snd item)\<rparr>))"

definition build_network :: "concept_table \<Rightarrow> network" where
  "build_network concepts = fold add_concept concepts Map.empty"

text \<open>
  The prerequisite relation of a table, and what it means for it to have a cycle: some
  concept reaches itself along one or more prerequisite edges.
\<close>

definition prereq_rel :: "concept_table \<Rightarrow> (string \<times> string) set" where
  "prereq_rel concepts = {(c, p). \<exists>con. (c, con) \<in> set concepts \<and> p \<in> set (prerequisites con)}"

definition has_cycle :: "concept_table \<Rightarrow> bool" where
  "has_cycle concepts = (\<exists>c. (c, c) \<in> (prereq_rel concepts)\<^sup>+)"

subsection \<open>Building the parameters of the model\<close>

record HMMParams =
  states :: "string list"
  observations :: "string list"
  start_probabilities :: "string \<rightharpoonup> real"
  transition_matrix :: "string \<rightharpoonup> (string \<rightharpoonup> real)"
  emission_matrix :: "string \<rightharpoonup> (string \<rightharpoonup> real)"

text \<open>A sequence of statements, each of which may raise: the first exception wins.\<close>

fun traverse :: "('a \<Rightarrow> error + 'b) \<Rightarrow> 'a list \<Rightarrow> error + 'b list" where
  "traverse f [] = Inr []"
| "traverse f (x # xs) =
     (case f x of
        Inl e \<Rightarrow> Inl e
      | Inr y \<Rightarrow> (case traverse f xs of Inl e \<Rightarrow> Inl e | Inr ys \<Rightarrow> Inr (y # ys)))"

text \<open>A dictionary filled by assignments \<^verbatim>\<open>d[k] = v\<close> in the order of the list.\<close>

definition dict_of :: "('k \<times> 'v) list \<Rightarrow> ('k \<rightharpoonup> 'v)" where
  "dict_of kvs = fold (\<lambda>kv d. d(fst kv \<mapsto> snd kv)) kvs Map.empty"

definition py_div :: "real \<Rightarrow> real \<Rightarrow> error + real" where
  "py_div a b = (if b = 0 then Inl ZeroDivisionError else Inr (a / b))"

text \<open>
  \<open>prior\<close> is the summand of \<^verbatim>\<open>total_prob\<close> and the numerator of a start
  probability; \<open>effProb\<close> is \<^verbatim>\<open>concept_prob\<close> and \<^verbatim>\<open>scaling_factor\<close>.
\<close>

definition prior :: "Concept \<Rightarrow> real" where
  "prior c = (if probability c > 0 then probability c else 1 - difficulty c)"

definition effProb :: "Concept \<Rightarrow> real" where
  "effProb c = (if probability c > 0 then probability c else 1)"

definition total_prob :: "concept_table \<Rightarrow> real" where
  "total_prob concepts = sum_list (map (\<lambda>item. prior (snd item)) concepts)"

definition start_entry :: "real \<Rightarrow> string \<times> Concept \<Rightarrow> error + (string \<times> real)" where
  "start_entry tp item =
     (case py_div (prior (snd item)) tp of
        Inl e \<Rightarrow> Inl e
      | Inr p \<Rightarrow> Inr (fst item, p))"

definition transition_entry ::
  "concept_table \<Rightarrow> string \<Rightarrow> string set \<Rightarrow> real \<Rightarrow> real \<Rightarrow> string \<Rightarrow> error + (string \<times> real)" where
  "transition_entry concepts from_state connected_states base_prob connected_prob to_state =
     (case map_of concepts to_state of
        None \<Rightarrow> Inl KeyError
      | Some c \<Rightarrow>
          let concept_prob = effProb c in
          if to_state = from_state then Inr (to_state, 0.7 * concept_prob)
          else if to_state \<in> connected_states then Inr (to_state, connected_prob * 0.3 * concept_prob)
          else Inr (to_state, base_prob * 0.3 * concept_prob))"

definition transition_row ::
  "concept_table \<Rightarrow> network \<Rightarrow> string list \<Rightarrow> string \<Rightarrow> error + (string \<times> (string \<rightharpoonup> real))" where
  "transition_row concepts net sts from_state =
     (case net from_state of
        None \<Rightarrow> Inl KeyError
      | Some nd \<Rightarrow>
          let connected_states = set (children nd) \<union> set (parents nd) in
          (case py_div 0.1 (real_of_int (int (length sts) - 1)) of
             Inl e \<Rightarrow> Inl e
           | Inr base_prob \<Rightarrow>
               let connected_prob = 0.9 / real (max (card connected_states) 1) in
               (case traverse (transition_entry concepts from_state connected_states
                                 base_prob connected_prob) sts of
                  Inl e \<Rightarrow> Inl e
                | Inr row \<Rightarrow> Inr (from_state, dict_of row))))"

definition emission_entry :: "Concept \<Rightarrow> string list \<Rightarrow> string \<Rightarrow> error + (string \<times> real)" where
  "emission_entry concept obss obs =
     (let scaling_factor = effProb concept in
      if obs \<in> set (keywords concept)
      then (case py_div 0.8 (real (length (keywords concept))) of
              Inl e \<Rightarrow> Inl e
            | Inr q \<Rightarrow> Inr (obs, q * scaling_factor))
      else (case py_div 0.2 (real_of_int (int (length obss) - int (length (keywords concept)))) of
              Inl e \<Rightarrow> Inl e
            | Inr q \<Rightarrow> Inr (obs, q * scaling_factor)))"

definition emission_row ::
  "concept_table \<Rightarrow> string list \<Rightarrow> string \<Rightarrow> error + (string \<times> (string \<rightharpoonup> real))" where
  "emission_row concepts obss state =
     (case map_of concepts state of
        None \<Rightarrow> Inl KeyError
      | Some concept \<Rightarrow>
          (case traverse (emission_entry concept obss) obss of
             Inl e \<Rightarrow> Inl e
           | Inr row \<Rightarrow> Inr (state, dict_of row)))"


definition vocabulary :: "(string list \<Rightarrow> string list) \<Rightarrow> concept_table \<Rightarrow> string list" where
  "vocabulary set_list concepts = set_list (concat (map (\<lambda>item. keywords (snd item)) concepts))"

definition initialize_hmm ::
  "(string list \<Rightarrow> string list) \<Rightarrow> concept_table \<Rightarrow> network \<Rightarrow> error + HMMParams" where
  "initialize_hmm set_list concepts net =
     (let sts = map fst concepts;
          obss = vocabulary set_list concepts;
          tp = total_prob concepts
      in case traverse (start_entry tp) concepts of
           Inl e \<Rightarrow> Inl e
         | Inr start_rows \<Rightarrow>
             (case traverse (transition_row concepts net sts) sts of
                Inl e \<Rightarrow> Inl e
              | Inr trans_rows \<Rightarrow>
                  (case traverse (emission_row concepts obss) sts of
                     Inl e \<Rightarrow> Inl e
                   | Inr emis_rows \<Rightarrow>
                       Inr \<lparr>states = sts, observations = obss,
                            start_probabilities = dict_of start_rows,
                            transition_matrix = dict_of trans_rows,
                            emission_matrix = dict_of emis_rows\<rparr>)))"

text \<open>
  The constructor \<^verbatim>\<open>MathKnowledgeBase.__init__\<close>, as far as the model goes: the
  network is built from the table, then the parameters from both.
\<close>

definition construct :: "(string list \<Rightarrow> string list) \<Rightarrow> concept_table \<Rightarrow> error + HMMParams" where
  "construct set_list concepts = initialize_hmm set_list concepts (build_network concepts)"

subsection \<open>Regular expressions of the observation extractor\<close>

text \<open>
  The patterns of \<^verbatim>\<open>_compile_observation_patterns\<close> are few and fixed, so each is
  modelled by the function that decides \<^verbatim>\<open>pattern.search(text)\<close>. A matcher
  \<open>m prev rest\<close> says whether the pattern matches at the position whose preceding
  character is \<open>prev\<close> (if any) and whose remaining text is \<open>rest\<close>; \<open>search\<close>
  tries every position from left to right.

  The character classes are those of Python's \<^verbatim>\<open>re\<close> on \<^verbatim>\<open>str\<close> patterns,
  for the code points below 256: \<^verbatim>\<open>\d\<close> is a decimal digit, \<^verbatim>\<open>\w\<close> is an
  alphanumeric character or the underscore.
\<close>

definition is_digit :: "char \<Rightarrow> bool" where
  "is_digit c = (CHR ''0'' \<le> c \<and> c \<le> CHR ''9'')"

definition is_word :: "char \<Rightarrow> bool" where
  "is_word c =
     (let n = (of_char c :: nat) in
      is_digit c \<or> (CHR ''a'' \<le> c \<and> c \<le> CHR ''z'') \<or> (CHR ''A'' \<le> c \<and> c \<le> CHR ''Z'') \<or>
      c = CHR ''_'' \<or>
      n \<in> {0xAA, 0xB2, 0xB3, 0xB5, 0xB9, 0xBA, 0xBC, 0xBD, 0xBE} \<or>
      (0xC0 \<le> n \<and> n \<le> 0xD6) \<or> (0xD8 \<le> n \<and> n \<le> 0xF6) \<or> 0xF8 \<le> n)"

text \<open>\<^verbatim>\<open>str.lower\<close>, one character at a time.\<close>

definition lower_char :: "char \<Rightarrow> char" where
  "lower_char c =
     (let n = (of_char c :: nat) in
      if (0x41 \<le> n \<and> n \<le> 0x5A) \<or> (0xC0 \<le> n \<and> n \<le> 0xDE \<and> n \<noteq> 0xD7)
      then char_of (n + 32) else c)"

definition py_lower :: "string \<Rightarrow> string" where
  "py_lower s = map lower_char s"

definition word_before :: "char option \<Rightarrow> bool" where
  "word_before prev = (case prev of None \<Rightarrow> False | Some c \<Rightarrow> is_word c)"

definition word_after :: "string \<Rightarrow> bool" where
  "word_after rest = (case rest of [] \<Rightarrow> False | c # cs \<Rightarrow> is_word c)"

text \<open>\<^verbatim>\<open>\b\<close>: exactly one side of the position is a word character.\<close>

definition at_boundary :: "char option \<Rightarrow> string \<Rightarrow> bool" where
  "at_boundary prev rest = (word_before prev \<noteq> word_after rest)"

fun search_from :: "(char option \<Rightarrow> string \<Rightarrow> bool) \<Rightarrow> char option \<Rightarrow> string \<Rightarrow> bool" where
  "search_from m prev [] = m prev []"
| "search_from m prev (c # cs) = (m prev (c # cs) \<or> search_from m (Some c) cs)"

definition search :: "(char option \<Rightarrow> string \<Rightarrow> bool) \<Rightarrow> string \<Rightarrow> bool" where
  "search m text = search_from m None text"

text \<open>
  A literal, as \<^verbatim>\<open>re.escape\<close> makes it; \<open>ic\<close> is the flag
  \<^verbatim>\<open>re.IGNORECASE\<close>. The result is the position after the literal.
\<close>

fun match_literal :: "bool \<Rightarrow> string \<Rightarrow> char option \<Rightarrow> string \<Rightarrow> (char option \<times> string) option" where
  "match_literal ic [] prev rest = Some (prev, rest)"
| "match_literal ic (p # ps) prev [] = None"
| "match_literal ic (p # ps) prev (c # cs) =
     (if (if ic then lower_char p = lower_char c else p = c)
      then match_literal ic ps (Some c) cs else None)"

text \<open>\<^verbatim>\<open>\b\<close> literal \<^verbatim>\<open>\b\<close>.\<close>

definition word_pattern :: "bool \<Rightarrow> string \<Rightarrow> char option \<Rightarrow> string \<Rightarrow> bool" where
  "word_pattern ic lit prev rest =
     (at_boundary prev rest \<and>
      (case match_literal ic lit prev rest of
         None \<Rightarrow> False
       | Some (prev', rest') \<Rightarrow> at_boundary prev' rest'))"

text \<open>\<^verbatim>\<open>[^><=]=(?!=)\<close>\<close>

definition equation_at :: "char option \<Rightarrow> string \<Rightarrow> bool" where
  "equation_at prev rest =
     (case rest of
        c # e # rest' \<Rightarrow>
          c \<notin> {CHR ''>'', CHR ''<'', CHR ''=''} \<and> e = CHR ''='' \<and>
          (case rest' of [] \<Rightarrow> True | d # ds \<Rightarrow> d \<noteq> CHR ''='')
      | _ \<Rightarrow> False)"

text \<open>\<^verbatim>\<open>[<>]=?|!=\<close>\<close>

definition inequality_at :: "char option \<Rightarrow> string \<Rightarrow> bool" where
  "inequality_at prev rest =
     (case rest of
        [] \<Rightarrow> False
      | c # rest' \<Rightarrow>
          c = CHR ''<'' \<or> c = CHR ''>'' \<or>
          (c = CHR ''!'' \<and> (case rest' of [] \<Rightarrow> False | d # ds \<Rightarrow> d = CHR ''='')))"

text \<open>
  \<^verbatim>\<open>\b\w+\^2\b\<close> or the superscript two (code point 178). The character after
  \<^verbatim>\<open>\w+\<close> has to be the circumflex, which is no word character, so
  \<^verbatim>\<open>\w+\<close> takes the whole run of word characters.
\<close>

definition squared_at :: "char option \<Rightarrow> string \<Rightarrow> bool" where
  "squared_at prev rest =
     ((at_boundary prev rest \<and> takeWhile is_word rest \<noteq> [] \<and>
       (case dropWhile is_word rest of
          a # b # rest' \<Rightarrow> a = CHR 0x5E \<and> b = CHR ''2'' \<and> \<not> word_after rest'
        | _ \<Rightarrow> False)) \<or>
      (case rest of [] \<Rightarrow> False | c # cs \<Rightarrow> c = CHR 0xB2))"

text \<open>\<^verbatim>\<open>/|\bover\b|\bdivided by\b\<close>, without \<^verbatim>\<open>re.IGNORECASE\<close>.\<close>

definition fraction_at :: "char option \<Rightarrow> string \<Rightarrow> bool" where
  "fraction_at prev rest =
     ((case rest of [] \<Rightarrow> False | c # cs \<Rightarrow> c = CHR ''/'') \<or>
      word_pattern False ''over'' prev rest \<or>
      word_pattern False ''divided by'' prev rest)"

text \<open>
  \<^verbatim>\<open>\b[fg]\(.*?\)\<close>: the dot matches every character but the line feed, so a
  closing parenthesis has to follow on the same line.
\<close>

definition function_at :: "char option \<Rightarrow> string \<Rightarrow> bool" where
  "function_at prev rest =
     (at_boundary prev rest \<and>
      (case rest of
         c # p # rest' \<Rightarrow>
           (c = CHR ''f'' \<or> c = CHR ''g'') \<and> p = CHR ''('' \<and>
           CHR '')'' \<in> set (takeWhile (\<lambda>x. x \<noteq> CHR 0x0A) rest')
       | _ \<Rightarrow> False))"

text \<open>
  \<^verbatim>\<open>\b\d+\b\<close>: a digit is a word character, so the closing \<^verbatim>\<open>\b\<close> holds only
  after the whole run of digits.
\<close>

definition digits_at :: "char option \<Rightarrow> string \<Rightarrow> bool" where
  "digits_at prev rest =
     (at_boundary prev rest \<and> takeWhile is_digit rest \<noteq> [] \<and>
      \<not> word_after (dropWhile is_digit rest))"

subsection \<open>Extraction of observations\<close>

text \<open>The keys of a dictionary filled in the order of the list: first occurrences.\<close>

definition dict_keys :: "'a list \<Rightarrow> 'a list" where
  "dict_keys xs = rev (remdups (rev xs))"

definition patterns :: "HMMParams \<Rightarrow> (string \<times> (string \<Rightarrow> bool)) list" where
  "patterns P = map (\<lambda>obs. (obs, search (word_pattern True obs))) (dict_keys (observations P))"

definition special_patterns :: "(string \<times> (string \<Rightarrow> bool)) list" where
  "special_patterns =
     [(''equation'', search equation_at),
      (''inequality'', search inequality_at),
      (''squared'', search squared_at),
      (''fraction'', search fraction_at),
      (''function'', search function_at)]"

definition matching :: "(string \<times> (string \<Rightarrow> bool)) list \<Rightarrow> string \<Rightarrow> string list" where
  "matching pats question = map fst (filter (\<lambda>item. snd item question) pats)"

definition extract_observations :: "HMMParams \<Rightarrow> string \<Rightarrow> string list" where
  "extract_observations P question =
     (let obss = matching (patterns P) question @ matching special_patterns question
      in if obss = []
         then (if search digits_at question then [''operand''] else [])
         else obss)"

subsection \<open>Viterbi decoding\<close>

text \<open>
  \<^verbatim>\<open>max\<close> over an iterable keeps the first item and replaces it by a later one only
  if that one is strictly greater; on an empty iterable it raises. The items of the
  decoder are tuples \<^verbatim>\<open>(probability, state)\<close>, which Python compares
  lexicographically: first the probabilities, then the names of the states.
\<close>

fun py_max :: "('a::linorder) list \<Rightarrow> error + 'a" where
  "py_max [] = Inl ValueError"
| "py_max (x # xs) = Inr (fold (\<lambda>item max_item. if max_item < item then item else max_item) xs x)"

text \<open>The default of \<^verbatim>\<open>.get(obs, 1e-10)\<close>.\<close>

definition emission_floor :: real where
  "emission_floor = 1 / 10 ^ 10"

definition row_get :: "(string \<rightharpoonup> real) \<Rightarrow> string \<Rightarrow> real" where
  "row_get row obs = (case row obs of None \<Rightarrow> emission_floor | Some v \<Rightarrow> v)"

text \<open>One round of the first loop: \<^verbatim>\<open>V[0][state]\<close> and \<^verbatim>\<open>path[state]\<close>.\<close>

definition initial_entry ::
  "HMMParams \<Rightarrow> string list \<Rightarrow> string \<Rightarrow> error + (string \<times> real \<times> string list)" where
  "initial_entry P obss state =
     (case start_probabilities P state of
        None \<Rightarrow> Inl KeyError
      | Some s \<Rightarrow>
          (case emission_matrix P state of
             None \<Rightarrow> Inl KeyError
           | Some row \<Rightarrow>
               (case obss of
                  [] \<Rightarrow> Inl IndexError
                | obs # rest \<Rightarrow> Inr (state, s * row_get row obs, [state]))))"

text \<open>
  One item of the generator inside \<^verbatim>\<open>max\<close>: the score of reaching
  \<open>curr_state\<close> from \<open>prev_state\<close>, paired with \<open>prev_state\<close>.
\<close>

definition candidate ::
  "HMMParams \<Rightarrow> (string \<rightharpoonup> real) \<Rightarrow> string \<Rightarrow> string \<Rightarrow> string \<Rightarrow> error + (real \<times> string)" where
  "candidate P V_prev obs curr_state prev_state =
     (case V_prev prev_state of
        None \<Rightarrow> Inl KeyError
      | Some v \<Rightarrow>
          (case transition_matrix P prev_state of
             None \<Rightarrow> Inl KeyError
           | Some trow \<Rightarrow>
               (case trow curr_state of
                  None \<Rightarrow> Inl KeyError
                | Some tr \<Rightarrow>
                    (case emission_matrix P curr_state of
                       None \<Rightarrow> Inl KeyError
                     | Some erow \<Rightarrow> Inr (v * tr * row_get erow obs, prev_state)))))"

text \<open>\<^verbatim>\<open>max_prob, best_state = max(... for prev_state in states)\<close>\<close>

definition best_predecessor ::
  "HMMParams \<Rightarrow> (string \<rightharpoonup> real) \<Rightarrow> string \<Rightarrow> string \<Rightarrow> error + (real \<times> string)" where
  "best_predecessor P V_prev obs curr_state =
     (case traverse (candidate P V_prev obs curr_state) (states P) of
        Inl e \<Rightarrow> Inl e
      | Inr cands \<Rightarrow> py_max cands)"

definition step_entry ::
  "HMMParams \<Rightarrow> (string \<rightharpoonup> real) \<Rightarrow> (string \<rightharpoonup> string list) \<Rightarrow> string \<Rightarrow> string \<Rightarrow>
     error + (string \<times> real \<times> string list)" where
  "step_entry P V_prev path obs curr_state =
     (case best_predecessor P V_prev obs curr_state of
        Inl e \<Rightarrow> Inl e
      | Inr (max_prob, best_state) \<Rightarrow>
          (case path best_state of
             None \<Rightarrow> Inl KeyError
           | Some p \<Rightarrow> Inr (curr_state, max_prob, p @ [curr_state])))"

text \<open>
  The two dictionaries filled by a loop over the states: the scores \<^verbatim>\<open>V[t]\<close> and the
  paths.
\<close>

definition tables ::
  "(string \<times> real \<times> string list) list \<Rightarrow> (string \<rightharpoonup> real) \<times> (string \<rightharpoonup> string list)" where
  "tables rows = (dict_of (map (\<lambda>r. (fst r, fst (snd r))) rows),
                  dict_of (map (\<lambda>r. (fst r, snd (snd r))) rows))"

text \<open>The body of the loop over \<open>t\<close>, for the observation \<^verbatim>\<open>observations[t]\<close>.\<close>

definition viterbi_step ::
  "HMMParams \<Rightarrow> (string \<rightharpoonup> real) \<times> (string \<rightharpoonup> string list) \<Rightarrow> string \<Rightarrow>
     error + ((string \<rightharpoonup> real) \<times> (string \<rightharpoonup> string list))" where
  "viterbi_step P st obs =
     (case traverse (step_entry P (fst st) (snd st) obs) (states P) of
        Inl e \<Rightarrow> Inl e
      | Inr rows \<Rightarrow> Inr (tables rows))"

fun viterbi_loop ::
  "HMMParams \<Rightarrow> (string \<rightharpoonup> real) \<times> (string \<rightharpoonup> string list) \<Rightarrow> string list \<Rightarrow>
     error + ((string \<rightharpoonup> real) \<times> (string \<rightharpoonup> string list))" where
  "viterbi_loop P st [] = Inr st"
| "viterbi_loop P st (obs # rest) =
     (case viterbi_step P st obs of
        Inl e \<Rightarrow> Inl e
      | Inr st' \<Rightarrow> viterbi_loop P st' rest)"

definition final_entry :: "(string \<rightharpoonup> real) \<Rightarrow> string \<Rightarrow> error + (real \<times> string)" where
  "final_entry V state = (case V state of None \<Rightarrow> Inl KeyError | Some v \<Rightarrow> Inr (v, state))"

definition viterbi :: "HMMParams \<Rightarrow> string list \<Rightarrow> error + (real \<times> string list)" where
  "viterbi P obss =
     (case traverse (initial_entry P obss) (states P) of
        Inl e \<Rightarrow> Inl e
      | Inr rows \<Rightarrow>
          (case viterbi_loop P (tables rows) (tl obss) of
             Inl e \<Rightarrow> Inl e
           | Inr st \<Rightarrow>
               (case traverse (final_entry (fst st)) (states P) of
                  Inl e \<Rightarrow> Inl e
                | Inr finals \<Rightarrow>
                    (case py_max finals of
                       Inl e \<Rightarrow> Inl e
                     | Inr (prob, best_final_state) \<Rightarrow>
                         (case snd st best_final_state of
                            None \<Rightarrow> Inl KeyError
                          | Some p \<Rightarrow> Inr (prob, p))))))"

subsection \<open>Analysis of a question\<close>

text \<open>
  \<^verbatim>\<open>np.mean\<close> makes the scores of the related concepts \<^verbatim>\<open>numpy.float64\<close>
  values. Dividing such a value by zero raises nothing: it gives an infinity or NaN
  (with a warning). The probabilities of the related concepts are therefore values of
  \<open>npfloat\<close>.
\<close>

datatype npfloat = Finite real | PosInf | NegInf | NaN

definition np_div :: "real \<Rightarrow> real \<Rightarrow> npfloat" where
  "np_div a b =
     (if b \<noteq> 0 then Finite (a / b)
      else if a > 0 then PosInf else if a < 0 then NegInf else NaN)"

fun np_less :: "npfloat \<Rightarrow> npfloat \<Rightarrow> bool" where
  "np_less NaN y = False"
| "np_less x NaN = False"
| "np_less x NegInf = False"
| "np_less NegInf y = True"
| "np_less PosInf y = False"
| "np_less x PosInf = True"
| "np_less (Finite a) (Finite b) = (a < b)"

record related =
  rc_concept :: string
  rc_probability :: npfloat
  rc_difficulty :: real

record result =
  main_concept :: string
  confidence :: real
  res_prerequisites :: "string list"
  related_concepts :: "related list"
  res_observations :: "string list"

datatype analysis = ErrorResult string "string list" | Analysis result

text \<open>
  \<^verbatim>\<open>related_concepts.sort(key=..., reverse=True)\<close>: a stable sort in descending order
  of the key, which compares keys by \<^verbatim>\<open><\<close> only. On keys without NaN every such sort
  gives the list below; where CPython's merge sort puts NaN keys is not modelled.
\<close>

fun insert_desc :: "related \<Rightarrow> related list \<Rightarrow> related list" where
  "insert_desc x [] = [x]"
| "insert_desc x (y # ys) =
     (if np_less (rc_probability x) (rc_probability y) then y # insert_desc x ys
      else x # y # ys)"

definition sort_desc :: "related list \<Rightarrow> related list" where
  "sort_desc xs = foldr insert_desc xs []"

text \<open>\<^verbatim>\<open>np.mean\<close> of a non-empty list.\<close>

definition np_mean :: "real list \<Rightarrow> real" where
  "np_mean xs = sum_list xs / real (length xs)"

text \<open>\<^verbatim>\<open>xs[-1]\<close> and \<^verbatim>\<open>xs[-2]\<close>\<close>

definition py_last :: "'a list \<Rightarrow> error + 'a" where
  "py_last xs = (if xs = [] then Inl IndexError else Inr (last xs))"

definition py_last2 :: "'a list \<Rightarrow> error + 'a" where
  "py_last2 xs = (if length xs < 2 then Inl IndexError else Inr (last (butlast xs)))"

text \<open>One round of the scoring loop: the concept, its raw score and its difficulty.\<close>

definition context_score :: "HMMParams \<Rightarrow> string list \<Rightarrow> string \<Rightarrow> error + real" where
  "context_score P state_sequence concept =
     (if length state_sequence > 1
      then (case py_last2 state_sequence of
              Inl e \<Rightarrow> Inl e
            | Inr prev_state \<Rightarrow>
                (case transition_matrix P prev_state of
                   None \<Rightarrow> Inl KeyError
                 | Some trow \<Rightarrow>
                     (case trow concept of None \<Rightarrow> Inl KeyError | Some tr \<Rightarrow> Inr tr)))
      else (case start_probabilities P concept of None \<Rightarrow> Inl KeyError | Some s \<Rightarrow> Inr s))"

definition score_entry ::
  "concept_table \<Rightarrow> HMMParams \<Rightarrow> string list \<Rightarrow> string list \<Rightarrow> string \<Rightarrow>
     error + (string \<times> real \<times> real)" where
  "score_entry concepts P obss state_sequence concept =
     (case emission_matrix P concept of
        None \<Rightarrow> Inl KeyError
      | Some erow \<Rightarrow>
          let emission_score = np_mean (map (row_get erow) obss) in
          (case context_score P state_sequence concept of
             Inl e \<Rightarrow> Inl e
           | Inr transition_score \<Rightarrow>
               (case map_of concepts concept of
                  None \<Rightarrow> Inl KeyError
                | Some c \<Rightarrow> Inr (concept, emission_score * transition_score, difficulty c))))"

definition total_score :: "(string \<times> real \<times> real) list \<Rightarrow> real" where
  "total_score scored = sum_list (map (\<lambda>r. fst (snd r)) scored)"

definition normalized :: "real \<Rightarrow> string \<times> real \<times> real \<Rightarrow> related" where
  "normalized ts r =
     \<lparr>rc_concept = fst r, rc_probability = np_div (fst (snd r)) ts, rc_difficulty = snd (snd r)\<rparr>"

definition operand_response :: "string list \<Rightarrow> result" where
  "operand_response obss =
     \<lparr>main_concept = ''basic_arithmetic'', confidence = 1, res_prerequisites = [],
      related_concepts =
        [\<lparr>rc_concept = ''basic_arithmetic'', rc_probability = Finite 1, rc_difficulty = 0.2\<rparr>],
      res_observations = obss\<rparr>"

definition analyze_question :: "concept_table \<Rightarrow> HMMParams \<Rightarrow> string \<Rightarrow> error + analysis" where
  "analyze_question concepts P question =
     (let obss = extract_observations P (py_lower question) in
      if obss = [] then Inr (ErrorResult ''No relevant patterns found in question'' [])
      else if obss = [''operand''] then Inr (Analysis (operand_response obss))
      else
        (case viterbi P obss of
           Inl e \<Rightarrow> Inl e
         | Inr (prob, state_sequence) \<Rightarrow>
             (case py_last state_sequence of
                Inl e \<Rightarrow> Inl e
              | Inr final_concept \<Rightarrow>
                  (case map_of concepts final_concept of
                     None \<Rightarrow> Inl KeyError
                   | Some fc \<Rightarrow>
                       (case traverse (score_entry concepts P obss state_sequence) (states P) of
                          Inl e \<Rightarrow> Inl e
                        | Inr scored \<Rightarrow>
                            Inr (Analysis
                              \<lparr>main_concept = final_concept, confidence = prob,
                               res_prerequisites = prerequisites fc,
                               related_concepts =
                                 sort_desc (map (normalized (total_score scored)) scored),
                               res_observations = obss\<rparr>))))))"

subsection \<open>The tables as the specification states them\<close>

text \<open>
  Section 4.3 of the specification gives the entries of the transition and the emission
  table by formulas. They are written down here as the specification words them, to be
  compared with the tables that \<open>initialize_hmm\<close> builds. \<open>nd\<close> is the node of the
  state \<open>A\<close> in the network, \<open>n\<close> the size of the vocabulary.
\<close>

definition spec_transition :: "concept_table \<Rightarrow> node \<Rightarrow> string \<Rightarrow> string \<Rightarrow> Concept \<Rightarrow> real" where
  "spec_transition concepts nd A B cB =
     (if B = A then 0.7 * effProb cB
      else if B \<in> set (children nd) \<union> set (parents nd)
      then 0.9 / real (card (set (children nd) \<union> set (parents nd))) * 0.3 * effProb cB
      else 0.1 / (real (length concepts) - 1) * 0.3 * effProb cB)"

definition spec_emission :: "nat \<Rightarrow> Concept \<Rightarrow> string \<Rightarrow> real" where
  "spec_emission n con obs =
     (if obs \<in> set (keywords con) then 0.8 / real (length (keywords con)) * effProb con
      else 0.2 / (real n - real (length (keywords con))) * effProb con)"

subsection \<open>Concept tables used as examples\<close>

text \<open>\<^verbatim>\<open>Concept(name=..., keywords=..., prerequisites=..., difficulty=..., probability=...)\<close>\<close>

definition mk_concept :: "string \<Rightarrow> string list \<Rightarrow> string list \<Rightarrow> real \<Rightarrow> real \<Rightarrow> Concept" where
  "mk_concept n ks ps d p =
     \<lparr>name = n, keywords = ks, prerequisites = ps, difficulty = d, probability = p\<rparr>"

text \<open>
  The first three concepts of the table in \<^verbatim>\<open>_initialize_concepts\<close>, entry by entry
  as in the source.
\<close>

definition curriculum :: concept_table where
  "curriculum =
     [(''basic_arithmetic'', mk_concept ''basic_arithmetic''
         [''add'', ''subtract'', ''multiply'', ''divide'', ''sum'', ''difference'', ''product'',
          ''quotient'', ''calculate'', ''compute'', ''evaluate'', ''operation'',
          ''+'', ''-'', ''*'', ''/'']
         [] 0.2 0.4),
      (''linear_equations'', mk_concept ''linear_equations''
         [''linear'', ''x'', ''variable'', ''constant'', ''unknown'', ''expression'',
          ''linear equation'']
         [''basic_arithmetic''] 0.4 0.3),
      (''quadratic_equations'', mk_concept ''quadratic_equations''
         [''quadratic'', ''second degree'', ''square'', ''squared'', ''roots'', ''^2'',
          ''polynomial'', ''x^2'']
         [''linear_equations''] 0.6 0.4)]"

text \<open>
  Two concepts \<open>a\<close> and \<open>b\<close> with the same data, both prerequisites of \<open>c\<close>: every
  score of \<open>a\<close> is computed by the same operations on the same numbers as the score of
  \<open>b\<close>, so the two tie in floating point as they do here.
\<close>

definition tie_table :: concept_table where
  "tie_table =
     [(''a'', mk_concept ''a'' [''k''] [] 0.5 0.5),
      (''b'', mk_concept ''b'' [''k''] [] 0.5 0.5),
      (''c'', mk_concept ''c'' [''m''] [''a'', ''b''] 0.5 0.5)]"

text \<open>Two concepts, each the prerequisite of the other.\<close>

definition cyclic_table :: concept_table where
  "cyclic_table =
     [(''a'', mk_concept ''a'' [''p''] [''b''] 0.5 0.5),
      (''b'', mk_concept ''b'' [''q''] [''a''] 0.5 0.5)]"

text \<open>The keywords of the first concept are the whole vocabulary.\<close>

definition cover_table :: concept_table where
  "cover_table =
     [(''c1'', mk_concept ''c1'' [''a'', ''b''] [] 0.5 0.5),
      (''c2'', mk_concept ''c2'' [''a''] [] 0.5 0.5)]"

text \<open>
  A keyword list with a repetition is longer than the vocabulary, which makes the
  emission of the other symbol negative; with these priors the two raw scores of the
  posterior cancel.
\<close>

definition zero_table :: concept_table where
  "zero_table =
     [(''c1'', mk_concept ''c1'' [''a'', ''a'', ''a''] [] 0.5 0.5),
      (''c2'', mk_concept ''c2'' [''b''] [] 0.5 0.25)]"

subsection \<open>When a division of the construction has a zero divisor\<close>

text \<open>
  The three quotients of \<open>initialize_hmm\<close> that can have a zero divisor are the start
  probabilities (by the sum of the priors), \<^verbatim>\<open>base_prob\<close> (by the number of states
  minus one) and the emission of a symbol outside the keywords of a concept (by the size
  of the vocabulary minus the length of the keyword list). None is evaluated for an empty
  table.
\<close>

definition division_fails :: "(string list \<Rightarrow> string list) \<Rightarrow> concept_table \<Rightarrow> bool" where
  "division_fails set_list concepts =
     (concepts \<noteq> [] \<and>
      (total_prob concepts = 0 \<or> length concepts = 1 \<or>
       (\<exists>item\<in>set concepts. \<exists>obs\<in>set (vocabulary set_list concepts).
          obs \<notin> set (keywords (snd item)) \<and>
          length (keywords (snd item)) = length (vocabulary set_list concepts))))"

subsection \<open>Parameters and intermediate tables of the examples\<close>

definition curriculum_params :: HMMParams where
  "curriculum_params = projr (construct remdups curriculum)"

definition tie_params :: HMMParams where
  "tie_params = projr (construct remdups tie_table)"

text \<open>The scores and paths after the first loop of \<open>viterbi\<close> on the tie table.\<close>

definition tie_initial :: "(string \<rightharpoonup> real) \<times> (string \<rightharpoonup> string list)" where
  "tie_initial =
     tables (projr (traverse (initial_entry tie_params [''k'', ''equation'']) (states tie_params)))"

definition zero_params :: HMMParams where
  "zero_params = projr (construct remdups zero_table)"


subsection \<open>Invariants of the decoder\<close>



subsection \<open>The children of a concept, as the specification defines them\<close>

text \<open>
  Section 3 of the specification defines the children of a concept as the reverse of the
  prerequisites. \<open>dependents concepts a\<close> lists the concepts that name \<open>a\<close> as a
  prerequisite, in the order of the table (once for every mention).
\<close>

definition dependents :: "concept_table \<Rightarrow> string \<Rightarrow> string list" where
  "dependents concepts a =
     concat (map (\<lambda>item. replicate (count_list (prerequisites (snd item)) a) (fst item)) concepts)"

text \<open>No concept is declared after a concept that names it as a prerequisite.\<close>

fun declared_in_order :: "concept_table \<Rightarrow> bool" where
  "declared_in_order [] = True"
| "declared_in_order (item # rest) =
     ((\<forall>later\<in>set rest. fst later \<notin> set (prerequisites (snd item))) \<and> declared_in_order rest)"

text \<open>The children that a network holds for a name, none if it has no node.\<close>

definition children_of :: "network \<Rightarrow> string \<Rightarrow> string list" where
  "children_of net a = (case net a of None \<Rightarrow> [] | Some nd \<Rightarrow> children nd)"

text \<open>
  A table in which \<open>c\<close> names \<open>a\<close> as its prerequisite and is declared before
  \<open>a\<close>.
\<close>

definition forward_table :: concept_table where
  "forward_table =
     [(''c'', mk_concept ''c'' [''m''] [''a''] 0.5 0.5),
      (''a'', mk_concept ''a'' [''k''] [] 0.5 0.5),
      (''d'', mk_concept ''d'' [''n''] [] 0.5 0.5)]"

definition forward_params :: HMMParams where
  "forward_params = projr (construct remdups forward_table)"


section \<open>Properties\<close>

subsection \<open>Sequences of statements and dictionaries\<close>

lemma traverse_Inr_iff: "traverse f xs = Inr ys \<longleftrightarrow> list_all2 (\<lambda>x y. f x = Inr y) xs ys"
proof (induction xs arbitrary: ys)
  case Nil
  then show ?case by auto
next
  case (Cons x xs)
  show ?case
  proof (cases ys)
    case Nil
    then show ?thesis by (auto split: sum.splits)
  next
    case (Cons y ys')
    then show ?thesis using Cons.IH [of ys'] by (auto split: sum.splits)
  qed
qed

lemma traverse_map: "(\<And>x. x \<in> set xs \<Longrightarrow> f x = Inr (g x)) \<Longrightarrow> traverse f xs = Inr (map g xs)"
  by (induction xs) auto

lemma traverse_Inr_map:
  assumes "traverse f xs = Inr ys" and "\<And>x y. x \<in> set xs \<Longrightarrow> f x = Inr y \<Longrightarrow> y = g x"
  shows "ys = map g xs"
  using assms by (induction xs arbitrary: ys) (auto split: sum.splits)

lemma traverse_Inl_elem: "traverse f xs = Inl e \<Longrightarrow> \<exists>x\<in>set xs. f x = Inl e"
  by (induction xs) (auto split: sum.splits)

lemma traverse_Inr_elem: "traverse f xs = Inr ys \<Longrightarrow> x \<in> set xs \<Longrightarrow> \<exists>y. f x = Inr y \<and> y \<in> set ys"
  by (induction xs arbitrary: ys) (auto split: sum.splits)

lemma traverse_Inl_intro:
  assumes "x \<in> set xs" and "f x = Inl e"
    and "\<And>y e'. y \<in> set xs \<Longrightarrow> f y = Inl e' \<Longrightarrow> e' = e"
  shows "traverse f xs = Inl e"
proof (cases "traverse f xs")
  case (Inl e')
  then obtain y where "y \<in> set xs" "f y = Inl e'" using traverse_Inl_elem by blast
  then show ?thesis using assms(3) Inl by simp
next
  case (Inr ys)
  then show ?thesis using traverse_Inr_elem [OF Inr assms(1)] assms(2) by simp
qed

lemma traverse_total:
  assumes "\<And>x. x \<in> set xs \<Longrightarrow> \<exists>y. f x = Inr y"
  shows "\<exists>ys. traverse f xs = Inr ys"
proof (cases "traverse f xs")
  case (Inl e)
  then obtain x where "x \<in> set xs" "f x = Inl e" using traverse_Inl_elem by blast
  then show ?thesis using assms by fastforce
next
  case (Inr ys)
  then show ?thesis by blast
qed

lemma fold_upd_map_of:
  "fold (\<lambda>kv d. d(fst kv \<mapsto> snd kv)) kvs m = m ++ map_of (rev kvs)"
proof (induction kvs arbitrary: m)
  case Nil
  then show ?case by simp
next
  case (Cons kv kvs)
  have "m(fst kv \<mapsto> snd kv) ++ map_of (rev kvs) = m ++ (map_of (rev kvs) ++ [fst kv \<mapsto> snd kv] ++ map_of (rev kvs))"
    by (rule ext) (simp add: map_add_def split: option.splits)
  then show ?case using Cons by (simp add: map_add_def fun_eq_iff split: option.splits)
qed

lemma dict_of_map_of: "dict_of kvs = map_of (rev kvs)"
  by (simp add: dict_of_def fold_upd_map_of)

lemma dict_of_distinct: "distinct (map fst kvs) \<Longrightarrow> dict_of kvs = map_of kvs"
  by (simp add: dict_of_map_of map_of_inject_set distinct_map)


lemma dict_of_keyed:
  "dict_of (map (\<lambda>x. (x, g x)) xs) k = (if k \<in> set xs then Some (g k) else None)"
proof -
  have "dict_of (map (\<lambda>x. (x, g x)) xs) = map_of (map (\<lambda>x. (x, g x)) (rev xs))"
    by (simp add: dict_of_map_of rev_map)
  then show ?thesis by (simp add: map_of_map_restrict restrict_map_def)
qed

lemma traverse_dict_in:
  assumes "traverse f xs = Inr ys" and "\<And>x y. x \<in> set xs \<Longrightarrow> f x = Inr y \<Longrightarrow> fst y = x"
    and "k \<in> set xs"
  shows "\<exists>v. f k = Inr (k, v) \<and> dict_of ys k = Some v"
proof -
  define g where "g x = snd (projr (f x))" for x
  have "ys = map (\<lambda>x. (x, g x)) xs"
  proof (rule traverse_Inr_map [OF assms(1)])
    fix x y assume "x \<in> set xs" "f x = Inr y"
    then show "y = (x, g x)" using assms(2) [of x y] by (auto simp: g_def)
  qed
  then have "dict_of ys k = Some (g k)" using assms(3) by (simp add: dict_of_keyed)
  moreover obtain y where "f k = Inr y" using traverse_Inr_elem [OF assms(1) assms(3)] by blast
  moreover have "y = (k, g k)" using assms(2) [OF assms(3) \<open>f k = Inr y\<close>] \<open>f k = Inr y\<close> by (auto simp: g_def)
  ultimately show ?thesis by simp
qed

lemma traverse_dict_out:
  assumes "traverse f xs = Inr ys" and "\<And>x y. x \<in> set xs \<Longrightarrow> f x = Inr y \<Longrightarrow> fst y = x"
    and "k \<notin> set xs"
  shows "dict_of ys k = None"
proof -
  have "ys = map (\<lambda>x. (x, snd (projr (f x)))) xs"
  proof (rule traverse_Inr_map [OF assms(1)])
    fix x y assume "x \<in> set xs" "f x = Inr y"
    then show "y = (x, snd (projr (f x)))" using assms(2) [of x y] by auto
  qed
  then show ?thesis using assms(3) by (simp add: dict_of_keyed)
qed

subsection \<open>What a successful construction has computed\<close>

lemma initialize_hmm_InrD:
  assumes "initialize_hmm set_list concepts net = Inr P"
  shows "states P = map fst concepts"
    and "observations P = vocabulary set_list concepts"
    and "\<exists>rows. traverse (start_entry (total_prob concepts)) concepts = Inr rows \<and>
           start_probabilities P = dict_of rows"
    and "\<exists>rows. traverse (transition_row concepts net (map fst concepts)) (map fst concepts) = Inr rows \<and>
           transition_matrix P = dict_of rows"
    and "\<exists>rows. traverse (emission_row concepts (vocabulary set_list concepts)) (map fst concepts) = Inr rows \<and>
           emission_matrix P = dict_of rows"
  using assms by (auto simp: initialize_hmm_def Let_def split: sum.splits)

lemma start_entry_eq:
  "start_entry tp item = (if tp = 0 then Inl ZeroDivisionError else Inr (fst item, prior (snd item) / tp))"
  by (simp add: start_entry_def py_div_def)

lemma map_of_map_value:
  "map_of (map (\<lambda>item. (fst item, h (snd item))) xs) k = map_option h (map_of xs k)"
  by (induction xs) auto

lemma initialize_start:
  assumes init: "initialize_hmm set_list concepts net = Inr P"
    and dist: "distinct (map fst concepts)"
    and mem: "(c, con) \<in> set concepts"
  shows "total_prob concepts \<noteq> 0"
    and "start_probabilities P c = Some (prior con / total_prob concepts)"
proof -
  obtain rows where rows: "traverse (start_entry (total_prob concepts)) concepts = Inr rows"
    and sp: "start_probabilities P = dict_of rows"
    using initialize_hmm_InrD(3) [OF init] by blast
  obtain y where "start_entry (total_prob concepts) (c, con) = Inr y"
    using traverse_Inr_elem [OF rows mem] by blast
  then show nz: "total_prob concepts \<noteq> 0" by (auto simp: start_entry_eq split: if_splits)
  have "rows = map (\<lambda>item. (fst item, prior (snd item) / total_prob concepts)) concepts"
    by (rule traverse_Inr_map [OF rows]) (auto simp: start_entry_eq split: if_splits)
  then have r: "rows = map (\<lambda>item. (fst item, (\<lambda>x. prior x / total_prob concepts) (snd item))) concepts"
    by simp
  have dr: "distinct (map fst rows)" using dist by (simp add: r comp_def)
  have "map_of concepts c = Some con" using dist mem by simp
  then have "map_of rows c = Some (prior con / total_prob concepts)"
    using map_of_map_value [of "\<lambda>x. prior x / total_prob concepts" concepts c] by (simp add: r)
  then show "start_probabilities P c = Some (prior con / total_prob concepts)"
    by (simp add: sp dict_of_distinct [OF dr])
qed


lemma transition_entry_fst:
  "transition_entry concepts A cs bp cp B = Inr y \<Longrightarrow> fst y = B"
  by (auto simp: transition_entry_def Let_def split: option.splits if_splits)

lemma transition_row_fst: "transition_row concepts net sts A = Inr y \<Longrightarrow> fst y = A"
  by (auto simp: transition_row_def Let_def split: option.splits sum.splits)

lemma transition_row_value:
  assumes row: "transition_row concepts net (map fst concepts) A = Inr (A, trow)"
    and dist: "distinct (map fst concepts)"
    and mem: "(B, cB) \<in> set concepts"
  shows "\<exists>nd. net A = Some nd \<and> length concepts \<noteq> 1 \<and>
           trow B = Some (spec_transition concepts nd A B cB)"
proof -
  obtain nd where nd: "net A = Some nd"
    using row by (auto simp: transition_row_def split: option.splits)
  let ?cs = "set (children nd) \<union> set (parents nd)"
  let ?bp = "0.1 / real_of_int (int (length concepts) - 1)"
  let ?cp = "0.9 / real (max (card ?cs) 1)"
  have len: "int (length concepts) - 1 \<noteq> 0"
    using row nd by (auto simp: transition_row_def py_div_def Let_def split: if_splits)
  obtain rows where rows: "traverse (transition_entry concepts A ?cs ?bp ?cp) (map fst concepts) = Inr rows"
    and trow: "trow = dict_of rows"
    using row nd len by (auto simp: transition_row_def py_div_def Let_def split: sum.splits)
  have Bin: "B \<in> set (map fst concepts)" using mem by force
  obtain v where v: "transition_entry concepts A ?cs ?bp ?cp B = Inr (B, v)" and dv: "dict_of rows B = Some v"
    using traverse_dict_in [OF rows _ Bin] transition_entry_fst by blast
  have mo: "map_of concepts B = Some cB" using dist mem by simp
  have fin: "finite ?cs" by simp
  have "B \<in> ?cs \<Longrightarrow> max (card ?cs) 1 = card ?cs"
    using card_gt_0_iff [of ?cs] fin by (metis Suc_leI empty_iff max.absorb1 One_nat_def)
  moreover have "?bp = 0.1 / (real (length concepts) - 1)" by simp
  ultimately have "v = spec_transition concepts nd A B cB"
    using v mo unfolding transition_entry_def spec_transition_def Let_def
    by (simp only: option.case) (auto split: if_splits)
  then show ?thesis using nd len dv trow by auto
qed

lemma initialize_transition:
  assumes init: "initialize_hmm set_list concepts net = Inr P"
    and dist: "distinct (map fst concepts)"
    and memA: "A \<in> fst ` set concepts"
    and memB: "(B, cB) \<in> set concepts"
  shows "\<exists>nd trow. net A = Some nd \<and> length concepts \<noteq> 1 \<and> transition_matrix P A = Some trow \<and>
           trow B = Some (spec_transition concepts nd A B cB)"
proof -
  obtain rows where rows: "traverse (transition_row concepts net (map fst concepts)) (map fst concepts) = Inr rows"
    and tm: "transition_matrix P = dict_of rows"
    using initialize_hmm_InrD(4) [OF init] by blast
  have Ain: "A \<in> set (map fst concepts)" using memA by simp
  obtain trow where r: "transition_row concepts net (map fst concepts) A = Inr (A, trow)"
    and d: "dict_of rows A = Some trow"
    using traverse_dict_in [OF rows _ Ain] transition_row_fst by blast
  show ?thesis using transition_row_value [OF r dist memB] d tm by auto
qed

lemma emission_entry_fst: "emission_entry con obss obs = Inr y \<Longrightarrow> fst y = obs"
  by (auto simp: emission_entry_def Let_def py_div_def split: if_splits)

lemma emission_row_fst: "emission_row concepts obss s = Inr y \<Longrightarrow> fst y = s"
  by (auto simp: emission_row_def split: option.splits sum.splits)

lemma emission_entry_eq:
  "emission_entry con obss obs =
     (if obs \<notin> set (keywords con) \<and> length obss = length (keywords con)
      then Inl ZeroDivisionError
      else Inr (obs, spec_emission (length obss) con obs))"
proof -
  have "obs \<in> set (keywords con) \<Longrightarrow> length (keywords con) \<noteq> 0" by auto
  then show ?thesis
    by (auto simp: emission_entry_def spec_emission_def Let_def py_div_def)
qed

lemma emission_row_value:
  assumes row: "emission_row concepts obss c = Inr (c, erow)"
    and dist: "distinct (map fst concepts)"
    and mem: "(c, con) \<in> set concepts"
  shows "obs \<in> set obss \<Longrightarrow> erow obs = Some (spec_emission (length obss) con obs)"
    and "obs \<in> set obss \<Longrightarrow> obs \<notin> set (keywords con) \<Longrightarrow> length obss \<noteq> length (keywords con)"
    and "obs \<notin> set obss \<Longrightarrow> erow obs = None"
proof -
  have mo: "map_of concepts c = Some con" using dist mem by simp
  obtain rows where rows: "traverse (emission_entry con obss) obss = Inr rows"
    and erow: "erow = dict_of rows"
    using row mo by (auto simp: emission_row_def split: sum.splits)
  show "erow obs = None" if "obs \<notin> set obss"
    using traverse_dict_out [OF rows _ that] emission_entry_fst erow by blast
  {
    assume obs: "obs \<in> set obss"
    obtain v where v: "emission_entry con obss obs = Inr (obs, v)" and dv: "dict_of rows obs = Some v"
      using traverse_dict_in [OF rows _ obs] emission_entry_fst by blast
    show "erow obs = Some (spec_emission (length obss) con obs)"
      using v dv erow by (auto simp: emission_entry_eq split: if_splits)
    show "obs \<notin> set (keywords con) \<Longrightarrow> length obss \<noteq> length (keywords con)"
      using v by (auto simp: emission_entry_eq split: if_splits)
  }
qed

lemma initialize_emission:
  assumes init: "initialize_hmm set_list concepts net = Inr P"
    and dist: "distinct (map fst concepts)"
    and mem: "(c, con) \<in> set concepts"
  shows "\<exists>erow. emission_matrix P c = Some erow \<and>
           (\<forall>obs. erow obs =
              (if obs \<in> set (observations P)
               then Some (spec_emission (length (observations P)) con obs) else None)) \<and>
           (\<forall>obs\<in>set (observations P). obs \<notin> set (keywords con) \<longrightarrow>
              length (observations P) \<noteq> length (keywords con))"
proof -
  let ?obss = "vocabulary set_list concepts"
  obtain rows where rows: "traverse (emission_row concepts ?obss) (map fst concepts) = Inr rows"
    and em: "emission_matrix P = dict_of rows"
    using initialize_hmm_InrD(5) [OF init] by blast
  have cin: "c \<in> set (map fst concepts)" using mem by force
  obtain erow where r: "emission_row concepts ?obss c = Inr (c, erow)"
    and d: "dict_of rows c = Some erow"
    using traverse_dict_in [OF rows _ cin] emission_row_fst by blast
  show ?thesis
    using emission_row_value [OF r dist mem] d em initialize_hmm_InrD(2) [OF init]
    by auto
qed


subsection \<open>The network\<close>

lemma add_prereq_dom: "dom (add_prereq n p net) = insert p (dom net)"
  by (auto simp: add_prereq_def split: option.splits)

lemma add_prereq_parents:
  "net k = Some nd \<Longrightarrow> \<exists>nd'. add_prereq n p net k = Some nd' \<and> parents nd' = parents nd"
  by (auto simp: add_prereq_def split: option.splits)

lemma fold_add_prereq_dom: "dom (fold (add_prereq n) ps net) = set ps \<union> dom net"
  by (induction ps arbitrary: net) (auto simp: add_prereq_dom)

lemma fold_add_prereq_parents:
  "net k = Some nd \<Longrightarrow> \<exists>nd'. fold (add_prereq n) ps net k = Some nd' \<and> parents nd' = parents nd"
proof (induction ps arbitrary: net nd)
  case Nil
  then show ?case by simp
next
  case (Cons p ps)
  obtain nd1 where "add_prereq n p net k = Some nd1" "parents nd1 = parents nd"
    using add_prereq_parents [of net k nd n p] Cons.prems by blast
  then show ?case using Cons.IH [of "add_prereq n p net" nd1] by auto
qed

lemma add_concept_dom:
  "dom (add_concept item net) = insert (fst item) (set (prerequisites (snd item)) \<union> dom net)"
  by (auto simp: add_concept_def fold_add_prereq_dom)

lemma add_concept_self:
  "\<exists>nd. add_concept item net (fst item) = Some nd \<and> parents nd = prerequisites (snd item)"
  unfolding add_concept_def
  using fold_add_prereq_parents
    [of "net(fst item \<mapsto> \<lparr>children = [], parents = prerequisites (snd item)\<rparr>)" "fst item"
        "\<lparr>children = [], parents = prerequisites (snd item)\<rparr>" "fst item" "prerequisites (snd item)"]
  by simp

lemma add_concept_other:
  assumes "net k = Some nd" and "k \<noteq> fst item"
  shows "\<exists>nd'. add_concept item net k = Some nd' \<and> parents nd' = parents nd"
  unfolding add_concept_def
  using fold_add_prereq_parents
    [of "net(fst item \<mapsto> \<lparr>children = [], parents = prerequisites (snd item)\<rparr>)" k nd
        "fst item" "prerequisites (snd item)"] assms
  by simp

lemma build_network_dom:
  "dom (build_network concepts) =
     fst ` set concepts \<union> (\<Union>item\<in>set concepts. set (prerequisites (snd item)))"
proof -
  have "dom (fold add_concept concepts net) =
     fst ` set concepts \<union> (\<Union>item\<in>set concepts. set (prerequisites (snd item))) \<union> dom net" for net
    by (induction concepts arbitrary: net) (auto simp: add_concept_dom)
  then show ?thesis by (simp add: build_network_def)
qed

lemma build_network_parents:
  assumes "distinct (map fst concepts)" and "(c, con) \<in> set concepts"
  shows "\<exists>nd. build_network concepts c = Some nd \<and> parents nd = prerequisites con"
  using assms
proof (induction concepts rule: rev_induct)
  case Nil
  then show ?case by simp
next
  case (snoc item items)
  have step: "build_network (items @ [item]) = add_concept item (build_network items)"
    by (simp add: build_network_def)
  show ?case
  proof (cases "(c, con) = item")
    case True
    then show ?thesis using add_concept_self [of item "build_network items"] step by auto
  next
    case False
    then have mem: "(c, con) \<in> set items" using snoc.prems(2) by auto
    then have "c \<in> fst ` set items" by (rule image_eqI [rotated]) simp
    moreover have "fst item \<notin> fst ` set items" using snoc.prems(1) by simp
    ultimately have ne: "c \<noteq> fst item" by blast
    obtain nd where "build_network items c = Some nd" "parents nd = prerequisites con"
      using snoc.IH mem snoc.prems(1) by auto
    then show ?thesis using add_concept_other [OF _ ne, of "build_network items" nd] step by auto
  qed
qed

lemma build_network_defined: "c \<in> fst ` set concepts \<Longrightarrow> build_network concepts c \<noteq> None"
  using build_network_dom [of concepts] by (metis UnI1 domIff)

subsection \<open>The example tables\<close>


lemma Inr_projr: "\<not> isl x \<Longrightarrow> x = Inr (projr x)"
  by (cases x) auto

lemma curriculum_constructs: "\<not> isl (construct remdups curriculum)"
  by code_simp

lemma curriculum_distinct: "distinct (map fst curriculum)"
  by code_simp

lemma curriculum_initialize:
  "initialize_hmm remdups curriculum (build_network curriculum) =
     Inr (projr (construct remdups curriculum))"
  using Inr_projr [OF curriculum_constructs] by (simp add: construct_def)

lemma sum_list_divide: "sum_list (map (\<lambda>x. f x / (c::real)) xs) = sum_list (map f xs) / c"
  by (induction xs) (auto simp: add_divide_distrib)

subsection \<open>Success and failure of the construction\<close>



lemma curriculum_digits:
  "extract_observations (projr (construct remdups curriculum)) (py_lower ''42 99'') = [''operand'']"
  by code_simp

lemma not_isl_Inr: "\<not> isl x \<Longrightarrow> \<exists>y. x = Inr y"
  by (cases x) auto

lemma transition_entry_ok:
  assumes "B \<in> set (map fst concepts)"
  shows "\<not> isl (transition_entry concepts A cs bp cp B)"
proof -
  obtain cB where "map_of concepts B = Some cB"
    using assms by (metis map_of_eq_None_iff not_None_eq set_map)
  then show ?thesis by (simp add: transition_entry_def Let_def)
qed

lemma transition_row_cases:
  assumes A: "A \<in> set (map fst concepts)"
  shows "length concepts = 1 \<Longrightarrow>
           transition_row concepts (build_network concepts) (map fst concepts) A = Inl ZeroDivisionError"
    and "length concepts \<noteq> 1 \<Longrightarrow>
           \<not> isl (transition_row concepts (build_network concepts) (map fst concepts) A)"
proof -
  obtain nd where nd: "build_network concepts A = Some nd"
    using build_network_defined [of A concepts] A by auto
  show "transition_row concepts (build_network concepts) (map fst concepts) A = Inl ZeroDivisionError"
    if "length concepts = 1"
    using that by (simp add: transition_row_def nd py_div_def)
  show "\<not> isl (transition_row concepts (build_network concepts) (map fst concepts) A)"
    if "length concepts \<noteq> 1"
  proof -
    let ?f = "transition_entry concepts A (set (children nd) \<union> set (parents nd))
                (0.1 / real_of_int (int (length concepts) - 1))
                (0.9 / real (max (card (set (children nd) \<union> set (parents nd))) 1))"
    have "\<exists>y. ?f B = Inr y" if "B \<in> set (map fst concepts)" for B
      using transition_entry_ok [OF that] by (rule not_isl_Inr)
    then obtain rows where "traverse ?f (map fst concepts) = Inr rows"
      using traverse_total [of "map fst concepts" ?f] by blast
    moreover have "int (length concepts) - 1 \<noteq> 0" using \<open>length concepts \<noteq> 1\<close> by auto
    ultimately show ?thesis
      by (simp add: transition_row_def nd py_div_def Let_def)
  qed
qed

lemma emission_row_cases:
  assumes dist: "distinct (map fst concepts)" and mem: "(c, con) \<in> set concepts"
  shows "\<exists>obs\<in>set obss. obs \<notin> set (keywords con) \<and> length (keywords con) = length obss \<Longrightarrow>
           emission_row concepts obss c = Inl ZeroDivisionError"
    and "\<not> (\<exists>obs\<in>set obss. obs \<notin> set (keywords con) \<and> length (keywords con) = length obss) \<Longrightarrow>
           \<not> isl (emission_row concepts obss c)"
proof -
  have mo: "map_of concepts c = Some con" using dist mem by simp
  show "emission_row concepts obss c = Inl ZeroDivisionError"
    if bad: "\<exists>obs\<in>set obss. obs \<notin> set (keywords con) \<and> length (keywords con) = length obss"
  proof -
    obtain obs where o1: "obs \<in> set obss"
      and o2: "obs \<notin> set (keywords con)" "length (keywords con) = length obss"
      using bad by blast
    have o3: "emission_entry con obss obs = Inl ZeroDivisionError"
      using o2 by (simp add: emission_entry_eq)
    note obs = o1 o3
    have "traverse (emission_entry con obss) obss = Inl ZeroDivisionError"
      by (rule traverse_Inl_intro [of obs obss "emission_entry con obss", OF obs])
        (auto simp: emission_entry_eq split: if_splits)
    then show ?thesis by (simp add: emission_row_def mo)
  qed
  show "\<not> isl (emission_row concepts obss c)"
    if "\<not> (\<exists>obs\<in>set obss. obs \<notin> set (keywords con) \<and> length (keywords con) = length obss)"
  proof -
    have "\<exists>y. emission_entry con obss obs = Inr y" if "obs \<in> set obss" for obs
      using that \<open>\<not> (\<exists>obs\<in>set obss. obs \<notin> set (keywords con) \<and> length (keywords con) = length obss)\<close>
      by (auto simp: emission_entry_eq)
    then obtain rows where "traverse (emission_entry con obss) obss = Inr rows"
      using traverse_total [of obss "emission_entry con obss"] by blast
    then show ?thesis by (simp add: emission_row_def mo)
  qed
qed

lemma construct_error_kind:
  assumes dist: "distinct (map fst concepts)" and err: "construct set_list concepts = Inl e"
  shows "e = ZeroDivisionError"
proof -
  let ?sts = "map fst concepts"
  let ?obss = "vocabulary set_list concepts"
  let ?net = "build_network concepts"
  consider (start) "traverse (start_entry (total_prob concepts)) concepts = Inl e"
    | (trans) "traverse (transition_row concepts ?net ?sts) ?sts = Inl e"
    | (emis) "traverse (emission_row concepts ?obss) ?sts = Inl e"
    using err by (auto simp: construct_def initialize_hmm_def Let_def split: sum.splits)
  then show ?thesis
  proof cases
    case start
    then obtain item where "start_entry (total_prob concepts) item = Inl e"
      using traverse_Inl_elem by blast
    then show ?thesis by (auto simp: start_entry_eq split: if_splits)
  next
    case trans
    then obtain A where A: "A \<in> set ?sts" "transition_row concepts ?net ?sts A = Inl e"
      using traverse_Inl_elem by blast
    show ?thesis
    proof (cases "length concepts = 1")
      case True
      then show ?thesis using transition_row_cases(1) [OF A(1)] A(2) by simp
    next
      case False
      then show ?thesis using transition_row_cases(2) [OF A(1)] A(2) by simp
    qed
  next
    case emis
    then obtain c where c: "c \<in> set ?sts" "emission_row concepts ?obss c = Inl e"
      using traverse_Inl_elem by blast
    then obtain con where con: "(c, con) \<in> set concepts" by auto
    show ?thesis
      using emission_row_cases [OF dist con, of ?obss] c(2) by (cases "isl (emission_row concepts ?obss c)") auto
  qed
qed

lemma construct_succeeds:
  assumes dist: "distinct (map fst concepts)" and ok: "\<not> division_fails set_list concepts"
  shows "\<exists>P. construct set_list concepts = Inr P"
proof (cases "concepts = []")
  case True
  then show ?thesis by (simp add: construct_def initialize_hmm_def vocabulary_def)
next
  case False
  let ?sts = "map fst concepts"
  let ?obss = "vocabulary set_list concepts"
  let ?net = "build_network concepts"
  have tp: "total_prob concepts \<noteq> 0" and len: "length concepts \<noteq> 1"
    and em: "\<And>item obs. item \<in> set concepts \<Longrightarrow> obs \<in> set ?obss \<Longrightarrow>
               obs \<notin> set (keywords (snd item)) \<Longrightarrow> length (keywords (snd item)) \<noteq> length ?obss"
    using ok False unfolding division_fails_def by blast+
  obtain r1 where r1: "traverse (start_entry (total_prob concepts)) concepts = Inr r1"
    using traverse_total [of concepts "start_entry (total_prob concepts)"] tp
    by (auto simp: start_entry_eq)
  have "\<exists>y. transition_row concepts ?net ?sts A = Inr y" if "A \<in> set ?sts" for A
    using transition_row_cases(2) [OF that len] by (rule not_isl_Inr)
  then obtain r2 where r2: "traverse (transition_row concepts ?net ?sts) ?sts = Inr r2"
    using traverse_total [of ?sts "transition_row concepts ?net ?sts"] by blast
  have "\<exists>y. emission_row concepts ?obss c = Inr y" if cin: "c \<in> set ?sts" for c
  proof -
    obtain con where con: "(c, con) \<in> set concepts" using cin by fastforce
    have "\<not> (\<exists>obs\<in>set ?obss. obs \<notin> set (keywords con) \<and> length (keywords con) = length ?obss)"
      using em [OF con] by auto
    then show ?thesis using emission_row_cases(2) [OF dist con, of ?obss] not_isl_Inr by blast
  qed
  then obtain r3 where r3: "traverse (emission_row concepts ?obss) ?sts = Inr r3"
    using traverse_total [of ?sts "emission_row concepts ?obss"] by blast
  show ?thesis using r1 r2 r3 by (simp add: construct_def initialize_hmm_def Let_def)
qed

lemma construct_fails:
  assumes dist: "distinct (map fst concepts)" and bad: "division_fails set_list concepts"
  shows "construct set_list concepts = Inl ZeroDivisionError"
proof (cases "construct set_list concepts")
  case (Inl e)
  then show ?thesis using construct_error_kind [OF dist Inl] by simp
next
  case (Inr P)
  then have init: "initialize_hmm set_list concepts (build_network concepts) = Inr P"
    by (simp add: construct_def)
  have ne: "concepts \<noteq> []" using bad by (simp add: division_fails_def)
  then obtain item where item: "item \<in> set concepts" by (cases concepts) auto
  have "total_prob concepts \<noteq> 0"
    using initialize_start(1) [OF init dist, of "fst item" "snd item"] item by simp
  moreover have "length concepts \<noteq> 1"
    using initialize_transition [OF init dist, of "fst item" "fst item" "snd item"] item by auto
  moreover have "length (keywords (snd it)) \<noteq> length (vocabulary set_list concepts)"
    if "it \<in> set concepts" "obs \<in> set (vocabulary set_list concepts)" "obs \<notin> set (keywords (snd it))"
    for it obs
    using initialize_emission [OF init dist, of "fst it" "snd it"] that
      initialize_hmm_InrD(2) [OF init] by auto
  ultimately have False using bad unfolding division_fails_def by blast
  then show ?thesis ..
qed

subsection \<open>Extraction, decoding and scoring\<close>

lemma distinct_dict_keys: "distinct (dict_keys xs)"
  by (simp add: dict_keys_def)

lemma set_dict_keys: "set (dict_keys xs) = set xs"
  by (simp add: dict_keys_def)

lemma matching_distinct: "distinct (map fst pats) \<Longrightarrow> distinct (matching pats question)"
  by (simp add: matching_def distinct_map_filter)

lemma matching_subset: "set (matching pats question) \<subseteq> fst ` set pats"
  by (auto simp: matching_def)

lemma patterns_keys: "map fst (patterns P) = dict_keys (observations P)"
  by (simp add: patterns_def comp_def)

lemma special_patterns_keys:
  "map fst special_patterns = [''equation'', ''inequality'', ''squared'', ''fraction'', ''function'']"
  by (simp add: special_patterns_def)

lemma count_list_distinct: "distinct xs \<Longrightarrow> count_list xs s \<le> 1"
  by (induction xs) auto

lemma count_list_append': "count_list (xs @ ys) s = count_list xs s + count_list ys s"
  by (induction xs) auto

lemma traverse_Inr_mem:
  "traverse f xs = Inr ys \<Longrightarrow> y \<in> set ys \<Longrightarrow> \<exists>x\<in>set xs. f x = Inr y"
  by (induction xs arbitrary: ys) (auto split: sum.splits)

lemma py_max_fold: "fold (\<lambda>item max_item. if max_item < item then item else max_item) xs (x::'a::linorder) = fold max xs x"
proof -
  have "(\<lambda>item max_item. if max_item < item then item else max_item) = (max :: 'a \<Rightarrow> 'a \<Rightarrow> 'a)"
    by (auto simp: fun_eq_iff max_def)
  then show ?thesis by simp
qed

lemma py_max_Inr:
  assumes "py_max xs = Inr m"
  shows "m \<in> set xs" and "\<And>x. x \<in> set xs \<Longrightarrow> x \<le> m"
proof -
  obtain y ys where xs: "xs = y # ys" using assms by (cases xs) auto
  have "fold max ys y = m" using assms unfolding xs by (simp add: py_max_fold)
  then have m: "m = Max (set (y # ys))" using Max.set_eq_fold [of y ys] by simp
  show "m \<in> set xs" unfolding m xs using Max_in [of "set (y # ys)"] by simp
  show "x \<le> m" if "x \<in> set xs" for x using that unfolding m xs by (intro Max_ge) auto
qed


lemma candidate_snd: "candidate P V obs cs prev = Inr y \<Longrightarrow> snd y = prev"
  by (auto simp: candidate_def split: option.splits)

lemma tie_constructs: "construct remdups tie_table = Inr tie_params"
proof -
  have "\<not> isl (construct remdups tie_table)" by code_simp
  then show ?thesis unfolding tie_params_def by (rule Inr_projr)
qed

lemma tie_states: "states tie_params = [''a'', ''b'', ''c'']"
  by code_simp

lemma tie_observations: "extract_observations tie_params (py_lower ''k = 1'') = [''k'', ''equation'']"
  by code_simp

lemma tie_first_loop:
  "traverse (initial_entry tie_params [''k'', ''equation'']) (states tie_params) =
     Inr [(''a'', 2 / 15, [''a'']), (''b'', 2 / 15, [''b'']), (''c'', 1 / 30, [''c''])]"
  by code_simp

lemma tie_candidate_a:
  "candidate tie_params (fst tie_initial) ''equation'' ''c'' ''a'' = Inr (9 / 5000000000000, ''a'')"
  by code_simp

lemma tie_candidate_b:
  "candidate tie_params (fst tie_initial) ''equation'' ''c'' ''b'' = Inr (9 / 5000000000000, ''b'')"
  by code_simp

lemma tie_candidate_c:
  "candidate tie_params (fst tie_initial) ''equation'' ''c'' ''c'' = Inr (7 / 6000000000000, ''c'')"
  by code_simp

lemma tie_best:
  "best_predecessor tie_params (fst tie_initial) ''equation'' ''c'' = Inr (9 / 5000000000000, ''b'')"
  by code_simp

lemma tie_step:
  "step_entry tie_params (fst tie_initial) (snd tie_initial) ''equation'' ''c'' =
     Inr (''c'', 9 / 5000000000000, [''b'', ''c''])"
  by code_simp

lemma tie_viterbi:
  "viterbi tie_params [''k'', ''equation''] = Inr (7 / 1500000000000, [''b'', ''b''])"
  by code_simp

lemma analyze_question_AnalysisD:
  assumes res: "analyze_question concepts P question = Inr (Analysis r)"
    and ns: "res_observations r \<noteq> [''operand'']"
  shows "\<exists>prob state_sequence fc scored.
           res_observations r = extract_observations P (py_lower question) \<and>
           res_observations r \<noteq> [] \<and>
           viterbi P (res_observations r) = Inr (prob, state_sequence) \<and>
           state_sequence \<noteq> [] \<and>
           map_of concepts (last state_sequence) = Some fc \<and>
           traverse (score_entry concepts P (res_observations r) state_sequence) (states P) = Inr scored \<and>
           main_concept r = last state_sequence \<and> confidence r = prob \<and>
           res_prerequisites r = prerequisites fc \<and>
           related_concepts r = sort_desc (map (normalized (total_score scored)) scored)"
proof -
  let ?obss = "extract_observations P (py_lower question)"
  have ne: "?obss \<noteq> []" using res by (auto simp: analyze_question_def Let_def split: if_splits)
  have nop: "?obss \<noteq> [''operand'']"
    using res ns by (auto simp: analyze_question_def Let_def operand_response_def split: if_splits)
  obtain prob seq where v: "viterbi P ?obss = Inr (prob, seq)"
    using res ne nop by (auto simp: analyze_question_def Let_def split: sum.splits)
  have sne: "seq \<noteq> []"
    using res ne nop v by (auto simp: analyze_question_def Let_def py_last_def split: if_splits)
  obtain fc where fc: "map_of concepts (last seq) = Some fc"
    using res ne nop v sne
    by (auto simp: analyze_question_def Let_def py_last_def split: option.splits)
  obtain scored where sc: "traverse (score_entry concepts P ?obss seq) (states P) = Inr scored"
    using res ne nop v sne fc
    by (auto simp: analyze_question_def Let_def py_last_def split: sum.splits)
  have r: "r = \<lparr>main_concept = last seq, confidence = prob, res_prerequisites = prerequisites fc,
                related_concepts = sort_desc (map (normalized (total_score scored)) scored),
                res_observations = ?obss\<rparr>"
    using res ne nop v sne fc sc by (simp add: analyze_question_def Let_def py_last_def)
  show ?thesis
    apply (rule exI [of _ prob], rule exI [of _ seq], rule exI [of _ fc], rule exI [of _ scored])
    using ne v sne fc sc by (simp add: r)
qed

lemma insert_desc_mset: "mset (insert_desc x ys) = add_mset x (mset ys)"
  by (induction ys) auto

lemma sort_desc_mset: "mset (sort_desc xs) = mset xs"
  by (induction xs) (auto simp: sort_desc_def insert_desc_mset)

















lemma normalized_simps:
  "rc_concept (normalized ts r) = fst r"
  "rc_probability (normalized ts r) = np_div (fst (snd r)) ts"
  "rc_difficulty (normalized ts r) = snd (snd r)"
  by (simp_all add: normalized_def)




lemma curriculum_sum_analysis:
  "analyze_question curriculum curriculum_params ''What is the sum of 5 and 3?'' =
     Inr (Analysis
       \<lparr>main_concept = ''basic_arithmetic'', confidence = 2 / 275, res_prerequisites = [],
        related_concepts =
          [\<lparr>rc_concept = ''basic_arithmetic'', rc_probability = Finite (736 / 933),
            rc_difficulty = 1 / 5\<rparr>,
           \<lparr>rc_concept = ''quadratic_equations'', rc_probability = Finite (128 / 933),
            rc_difficulty = 3 / 5\<rparr>,
           \<lparr>rc_concept = ''linear_equations'', rc_probability = Finite (23 / 311),
            rc_difficulty = 2 / 5\<rparr>],
        res_observations = [''sum'']\<rparr>)"
  by code_simp

lemma zero_constructs: "construct remdups zero_table = Inr zero_params"
proof -
  have "\<not> isl (construct remdups zero_table)" by code_simp
  then show ?thesis unfolding zero_params_def by (rule Inr_projr)
qed

lemma zero_observations: "extract_observations zero_params (py_lower ''b'') = [''b'']"
  by code_simp

lemma zero_viterbi: "viterbi zero_params [''b''] = Inr (1 / 15, [''c2''])"
  by code_simp

lemma zero_scores:
  "traverse (score_entry zero_table zero_params [''b''] [''c2'']) (states zero_params) =
     Inr [(''c1'', - (1 / 15), 1 / 2), (''c2'', 1 / 15, 1 / 2)]"
  by code_simp

lemma zero_total: "total_score [(''c1'', - (1 / 15), 1 / 2), (''c2'', 1 / 15, 1 / 2)] = 0"
  by (simp add: total_score_def)

lemma zero_analysis:
  "analyze_question zero_table zero_params ''b'' =
     Inr (Analysis
       \<lparr>main_concept = ''c2'', confidence = 1 / 15, res_prerequisites = [],
        related_concepts =
          [\<lparr>rc_concept = ''c2'', rc_probability = PosInf, rc_difficulty = 1 / 2\<rparr>,
           \<lparr>rc_concept = ''c1'', rc_probability = NegInf, rc_difficulty = 1 / 2\<rparr>],
        res_observations = [''b'']\<rparr>)"
  by code_simp

subsection \<open>The decoder and the analysis raise nothing on well-formed parameters\<close>


















subsection \<open>The children in the network and the transitions built from them\<close>

lemma declared_in_order_snoc:
  "declared_in_order (items @ [item]) =
     (declared_in_order items \<and> (\<forall>earlier\<in>set items. fst item \<notin> set (prerequisites (snd earlier))))"
  by (induction items) auto

lemma add_prereq_children:
  "children_of (add_prereq c p net) a =
     (if a = p then children_of net a @ [c] else children_of net a)"
  by (auto simp: add_prereq_def children_of_def split: option.splits)

lemma fold_add_prereq_children:
  "children_of (fold (add_prereq c) ps net) a = children_of net a @ replicate (count_list ps a) c"
proof (induction ps arbitrary: net)
  case Nil
  then show ?case by simp
next
  case (Cons p ps)
  show ?case
    by (simp add: Cons.IH add_prereq_children replicate_app_Cons_same)
qed

lemma add_concept_children:
  "children_of (add_concept item net) a =
     (if a = fst item then [] else children_of net a) @
       replicate (count_list (prerequisites (snd item)) a) (fst item)"
proof -
  have "children_of (net(fst item \<mapsto> \<lparr>children = [], parents = prerequisites (snd item)\<rparr>)) a =
          (if a = fst item then [] else children_of net a)"
    by (simp add: children_of_def)
  then show ?thesis by (simp only: add_concept_def fold_add_prereq_children)
qed

lemma dependents_snoc:
  "dependents (items @ [item]) a =
     dependents items a @ replicate (count_list (prerequisites (snd item)) a) (fst item)"
  by (simp add: dependents_def)

lemma dependents_empty:
  assumes "\<forall>item\<in>set items. a \<notin> set (prerequisites (snd item))"
  shows "dependents items a = []"
  using assms by (induction items) (auto simp: dependents_def count_list_0_iff)

lemma build_network_children:
  assumes "declared_in_order concepts"
  shows "children_of (build_network concepts) a = dependents concepts a"
  using assms
proof (induction concepts rule: rev_induct)
  case Nil
  then show ?case by (simp add: build_network_def children_of_def dependents_def)
next
  case (snoc item items)
  have step: "build_network (items @ [item]) = add_concept item (build_network items)"
    by (simp add: build_network_def)
  have ord: "declared_in_order items"
    and late: "\<forall>earlier\<in>set items. fst item \<notin> set (prerequisites (snd earlier))"
    using snoc.prems by (simp_all add: declared_in_order_snoc)
  have IH: "children_of (build_network items) a = dependents items a" using snoc.IH ord by simp
  show ?case
  proof (cases "a = fst item")
    case True
    have "dependents items a = []" using late True by (intro dependents_empty) simp
    then show ?thesis by (simp add: step add_concept_children dependents_snoc True)
  next
    case False
    then show ?thesis by (simp add: step add_concept_children dependents_snoc IH)
  qed
qed

lemma set_dependents:
  "set (dependents concepts a) = {c. \<exists>con. (c, con) \<in> set concepts \<and> a \<in> set (prerequisites con)}"
proof -
  have "\<And>n. set (replicate n x) = (if n = 0 then {} else {x})" for x :: string by auto
  then show ?thesis
    by (auto simp: dependents_def count_list_0_iff split: if_splits)
qed

lemma transition_of_network:
  assumes init: "construct set_list concepts = Inr P"
    and dist: "distinct (map fst concepts)"
    and memA: "(A, cA) \<in> set concepts"
    and memB: "(B, cB) \<in> set concepts"
  shows "\<exists>nd trow. build_network concepts A = Some nd \<and> transition_matrix P A = Some trow \<and>
           trow B = Some
             (if B = A then 0.7 * effProb cB
              else if B \<in> set (parents nd) \<union> set (children nd)
              then (0.9 / real (card (set (parents nd) \<union> set (children nd)))) * 0.3 * effProb cB
              else (0.1 / (real (length (states P)) - 1)) * 0.3 * effProb cB)"
proof -
  have init': "initialize_hmm set_list concepts (build_network concepts) = Inr P"
    using init by (simp add: construct_def)
  have Ain: "A \<in> fst ` set concepts" using memA by force
  obtain nd trow where nd: "build_network concepts A = Some nd"
    and tm: "transition_matrix P A = Some trow"
    and v: "trow B = Some (spec_transition concepts nd A B cB)"
    using initialize_transition [OF init' dist Ain memB] by blast
  have len: "length (states P) = length concepts"
    by (simp add: initialize_hmm_InrD(1) [OF init'])
  have un: "set (parents nd) \<union> set (children nd) = set (children nd) \<union> set (parents nd)"
    by blast
  show ?thesis using nd tm v by (simp add: spec_transition_def len un)
qed

lemma transition_table_in_order:
  assumes init: "construct set_list concepts = Inr P"
    and dist: "distinct (map fst concepts)"
    and ord: "declared_in_order concepts"
    and memA: "(A, cA) \<in> set concepts"
    and memB: "(B, cB) \<in> set concepts"
  shows "\<exists>trow. transition_matrix P A = Some trow \<and>
           trow B = Some
             (if B = A then 0.7 * effProb cB
              else if B \<in> set (prerequisites cA) \<union> set (dependents concepts A)
              then (0.9 / real (card (set (prerequisites cA) \<union> set (dependents concepts A)))) *
                     0.3 * effProb cB
              else (0.1 / (real (length (states P)) - 1)) * 0.3 * effProb cB)"
proof -
  obtain nd trow where nd: "build_network concepts A = Some nd"
    and tm: "transition_matrix P A = Some trow"
    and v: "trow B = Some
             (if B = A then 0.7 * effProb cB
              else if B \<in> set (parents nd) \<union> set (children nd)
              then (0.9 / real (card (set (parents nd) \<union> set (children nd)))) * 0.3 * effProb cB
              else (0.1 / (real (length (states P)) - 1)) * 0.3 * effProb cB)"
    using transition_of_network [OF init dist memA memB] by blast
  obtain nd' where "build_network concepts A = Some nd'" "parents nd' = prerequisites cA"
    using build_network_parents [OF dist memA] by blast
  then have par: "parents nd = prerequisites cA" using nd by simp
  have "children_of (build_network concepts) A = dependents concepts A"
    by (rule build_network_children [OF ord])
  then have chi: "children nd = dependents concepts A" using nd by (simp add: children_of_def)
  show ?thesis using tm v unfolding par chi by blast
qed

lemma forward_constructs: "construct remdups forward_table = Inr forward_params"
proof -
  have "\<not> isl (construct remdups forward_table)" by code_simp
  then show ?thesis unfolding forward_params_def by (rule Inr_projr)
qed

lemma forward_states: "states forward_params = [''c'', ''a'', ''d'']"
  by code_simp

lemma forward_prerequisites: "map_option prerequisites (map_of forward_table ''c'') = Some [''a'']"
  by (simp add: forward_table_def mk_concept_def)

lemma forward_dependents: "dependents forward_table ''a'' = [''c'']"
  by (simp add: forward_table_def mk_concept_def dependents_def)

lemma forward_node_a: "build_network forward_table ''a'' = Some \<lparr>children = [], parents = []\<rparr>"
  by code_simp

lemma forward_node_c: "build_network forward_table ''c'' = Some \<lparr>children = [], parents = [''a'']\<rparr>"
  by code_simp

lemma forward_transition_a_c:
  "map_option (\<lambda>row. row ''c'') (transition_matrix forward_params ''a'') = Some (Some (3 / 400))"
  by code_simp

lemma forward_transition_c_a:
  "map_option (\<lambda>row. row ''a'') (transition_matrix forward_params ''c'') = Some (Some (27 / 200))"
  by code_simp

lemma forward_claimed: "0.9 / real (card {''c''}) * 0.3 * effProb (mk_concept ''c'' [''m''] [''a''] 0.5 0.5) = 27 / 200"
  by (simp add: effProb_def mk_concept_def)

subsection \<open>The result of an analysis past the shortcut\<close>





subsection \<open>Ties between predecessors in the decoder\<close>

text \<open>
  Claim C1 says that of several predecessors with the maximal score the one that comes
  first in the order of the states is retained. It is not: on the tie table, whose states
  are \<open>a\<close>, \<open>b\<close>, \<open>c\<close> in this order, the question \<^verbatim>\<open>k = 1\<close> gives the
  observations \<open>k\<close> and \<open>equation\<close>; at the second observation the predecessors
  \<open>a\<close> and \<open>b\<close> of \<open>c\<close> have the same, maximal score, and \<open>b\<close> is retained: the
  path stored for \<open>c\<close> is \<open>b, c\<close>.
\<close>

theorem viterbi_tie_break:
  "construct remdups tie_table = Inr tie_params \<and>
   states tie_params = [''a'', ''b'', ''c''] \<and>
   extract_observations tie_params (py_lower ''k = 1'') = [''k'', ''equation''] \<and>
   traverse (initial_entry tie_params [''k'', ''equation'']) (states tie_params) =
     Inr [(''a'', 2 / 15, [''a'']), (''b'', 2 / 15, [''b'']), (''c'', 1 / 30, [''c''])] \<and>
   candidate tie_params (fst tie_initial) ''equation'' ''c'' ''a'' = Inr (9 / 5000000000000, ''a'') \<and>
   candidate tie_params (fst tie_initial) ''equation'' ''c'' ''b'' = Inr (9 / 5000000000000, ''b'') \<and>
   candidate tie_params (fst tie_initial) ''equation'' ''c'' ''c'' = Inr (7 / 6000000000000, ''c'') \<and>
   best_predecessor tie_params (fst tie_initial) ''equation'' ''c'' = Inr (9 / 5000000000000, ''b'') \<and>
   step_entry tie_params (fst tie_initial) (snd tie_initial) ''equation'' ''c'' =
     Inr (''c'', 9 / 5000000000000, [''b'', ''c''])"
  using tie_constructs tie_states tie_observations tie_first_loop tie_candidate_a tie_candidate_b
    tie_candidate_c tie_best tie_step
  by (simp only: simp_thms)

text \<open>
  Claim C1, amended. The predecessor retained for a state at a step \<open>t \<ge> 1\<close> is a state
  with the maximal score, and of the states with the maximal score it is the one whose
  name is the greatest in the order of strings (lexicographic by code point), because
  \<^verbatim>\<open>max\<close> compares the tuples \<^verbatim>\<open>(score, state)\<close>.
\<close>

theorem best_predecessor_tie_break:
  assumes "best_predecessor P V_prev obs curr_state = Inr (max_prob, best_state)"
  shows "best_state \<in> set (states P) \<and>
         candidate P V_prev obs curr_state best_state = Inr (max_prob, best_state) \<and>
         (\<forall>prev_state\<in>set (states P).
            \<exists>v. candidate P V_prev obs curr_state prev_state = Inr (v, prev_state) \<and>
                v \<le> max_prob \<and> (v = max_prob \<longrightarrow> prev_state \<le> best_state))"
proof -
  obtain cands where tr: "traverse (candidate P V_prev obs curr_state) (states P) = Inr cands"
    and mx: "py_max cands = Inr (max_prob, best_state)"
    using assms by (auto simp: best_predecessor_def split: sum.splits)
  have "(max_prob, best_state) \<in> set cands" using py_max_Inr(1) [OF mx] .
  then obtain p where p: "p \<in> set (states P)"
    and cp: "candidate P V_prev obs curr_state p = Inr (max_prob, best_state)"
    using traverse_Inr_mem [OF tr] by blast
  have pb: "p = best_state" using candidate_snd [OF cp] by simp
  have each: "\<exists>v. candidate P V_prev obs curr_state q = Inr (v, q) \<and>
                v \<le> max_prob \<and> (v = max_prob \<longrightarrow> q \<le> best_state)"
    if q: "q \<in> set (states P)" for q
  proof -
    obtain y where y: "candidate P V_prev obs curr_state q = Inr y" "y \<in> set cands"
      using traverse_Inr_elem [OF tr q] by blast
    have sy: "snd y = q" using candidate_snd [OF y(1)] .
    have "y \<le> (max_prob, best_state)" using py_max_Inr(2) [OF mx y(2)] .
    then have "fst y \<le> max_prob \<and> (fst y = max_prob \<longrightarrow> q \<le> best_state)"
      using sy by (cases y) (auto simp: less_eq_prod_def)
    then show ?thesis using y(1) sy by (cases y) auto
  qed
  show ?thesis using p pb cp each by blast
qed

theorem best_predecessor_tie_break_witness:
  "''b'' \<in> set (states tie_params) \<and>
   candidate tie_params (fst tie_initial) ''equation'' ''c'' ''b'' = Inr (9 / 5000000000000, ''b'') \<and>
   candidate tie_params (fst tie_initial) ''equation'' ''c'' ''a'' = Inr (9 / 5000000000000, ''a'') \<and>
   ''a'' \<le> ''b''"
proof -
  have a: "''a'' \<in> set (states tie_params)" by (simp add: tie_states)
  from best_predecessor_tie_break [OF tie_best] have
    b: "''b'' \<in> set (states tie_params)"
    and cb: "candidate tie_params (fst tie_initial) ''equation'' ''c'' ''b'' =
          Inr (9 / 5000000000000, ''b'')"
    and all: "\<forall>prev_state\<in>set (states tie_params).
       \<exists>v. candidate tie_params (fst tie_initial) ''equation'' ''c'' prev_state = Inr (v, prev_state) \<and>
           v \<le> 9 / 5000000000000 \<and> (v = 9 / 5000000000000 \<longrightarrow> prev_state \<le> ''b'')"
    by blast+
  from all a obtain v where
    v: "candidate tie_params (fst tie_initial) ''equation'' ''c'' ''a'' = Inr (v, ''a'')"
    and le: "v = 9 / 5000000000000 \<longrightarrow> ''a'' \<le> ''b''" by blast
  have "v = 9 / 5000000000000" using v tie_candidate_a by simp
  then show ?thesis using b cb v le by simp
qed

subsection \<open>Cycles of prerequisites\<close>

text \<open>
  Claim C2 says that a table whose prerequisite relation has a cycle is rejected when the
  network is built. It is not: on the table in which \<open>a\<close> and \<open>b\<close> are each the
  prerequisite of the other, \<open>build_network\<close> returns a network and the construction
  of the parameters succeeds.
\<close>

theorem build_network_accepts_cycle:
  "has_cycle cyclic_table \<and>
   build_network cyclic_table ''a'' = Some \<lparr>children = [''b''], parents = [''b'']\<rparr> \<and>
   build_network cyclic_table ''b'' = Some \<lparr>children = [], parents = [''a'']\<rparr> \<and>
   \<not> isl (construct remdups cyclic_table)"
proof -
  have ab: "(''a'', ''b'') \<in> prereq_rel cyclic_table"
    by (simp add: prereq_rel_def cyclic_table_def mk_concept_def)
  have ba: "(''b'', ''a'') \<in> prereq_rel cyclic_table"
    by (simp add: prereq_rel_def cyclic_table_def mk_concept_def)
  have "(''a'', ''a'') \<in> (prereq_rel cyclic_table)\<^sup>+"
    using ab ba by (rule trancl_into_trancl2 [OF _ r_into_trancl])
  then have "has_cycle cyclic_table" unfolding has_cycle_def by blast
  moreover have "build_network cyclic_table ''a'' = Some \<lparr>children = [''b''], parents = [''b'']\<rparr>"
    by code_simp
  moreover have "build_network cyclic_table ''b'' = Some \<lparr>children = [], parents = [''a'']\<rparr>"
    by code_simp
  moreover have "\<not> isl (construct remdups cyclic_table)" by code_simp
  ultimately show ?thesis by simp
qed

text \<open>
  Claim C2, amended. \<open>build_network\<close> checks nothing: for every table, with or without
  a cycle, it returns a network in which every concept of the table has a node whose
  parents are the prerequisites of the concept, and every prerequisite has a node.
\<close>

theorem build_network_total:
  assumes "distinct (map fst concepts)" and "(c, con) \<in> set concepts"
  shows "\<exists>nd. build_network concepts c = Some nd \<and> parents nd = prerequisites con \<and>
           (\<forall>p\<in>set (prerequisites con). build_network concepts p \<noteq> None)"
proof -
  have "p \<in> dom (build_network concepts)" if "p \<in> set (prerequisites con)" for p
    using that assms(2) unfolding build_network_dom by force
  then show ?thesis using build_network_parents [OF assms] by auto
qed

theorem build_network_total_witness:
  "\<exists>nd. build_network cyclic_table ''a'' = Some nd \<and> parents nd = [''b''] \<and>
     build_network cyclic_table ''b'' \<noteq> None"
proof -
  have d: "distinct (map fst cyclic_table)" by (simp add: cyclic_table_def)
  have m: "(''a'', mk_concept ''a'' [''p''] [''b''] 0.5 0.5) \<in> set cyclic_table"
    by (simp add: cyclic_table_def)
  show ?thesis using build_network_total [OF d m] by (simp add: mk_concept_def)
qed

subsection \<open>Repeated observations\<close>

text \<open>
  Claim C3 says that the extracted list never holds a symbol twice. It does when a keyword
  of the vocabulary is also the name of a composite pattern: with the keyword
  \<open>squared\<close> of \<open>quadratic_equations\<close>, the text \<^verbatim>\<open>x^2 squared\<close> matches the
  keyword and the composite pattern of the same name.
\<close>

theorem extraction_duplicate:
  "extract_observations (projr (construct remdups curriculum)) ''x^2 squared'' =
     [''x'', ''squared'', ''^2'', ''x^2'', ''squared''] \<and>
   \<not> distinct (extract_observations (projr (construct remdups curriculum)) ''x^2 squared'')"
proof -
  have "extract_observations (projr (construct remdups curriculum)) ''x^2 squared'' =
     [''x'', ''squared'', ''^2'', ''x^2'', ''squared'']"
    by code_simp
  then show ?thesis by simp
qed

text \<open>
  Claim C3, amended. A symbol occurs at most twice in the extracted list, once as a
  keyword and once as a composite symbol; when no keyword of the vocabulary is the name of
  a composite pattern, the list holds no symbol twice.
\<close>

theorem extraction_occurrences:
  "(\<forall>s. count_list (extract_observations P question) s \<le> 2) \<and>
   (set (observations P) \<inter> set (map fst special_patterns) = {} \<longrightarrow>
      distinct (extract_observations P question))"
proof -
  let ?k = "matching (patterns P) question"
  let ?s = "matching special_patterns question"
  have dk: "distinct ?k"
    by (rule matching_distinct) (simp add: patterns_keys distinct_dict_keys)
  have ds: "distinct ?s"
    by (rule matching_distinct) (simp add: special_patterns_keys)
  have sk: "set ?k \<subseteq> set (observations P)"
    using matching_subset [of "patterns P" question] patterns_keys [of P] set_dict_keys [of "observations P"]
    by (metis set_map)
  have ss: "set ?s \<subseteq> set (map fst special_patterns)"
    using matching_subset [of special_patterns question] by simp
  have cnt: "count_list (?k @ ?s) s \<le> 2" for s
    using count_list_distinct [OF dk, of s] count_list_distinct [OF ds, of s]
    by (simp add: count_list_append')
  have c2: "count_list (extract_observations P question) s \<le> 2" for s
    using cnt [of s] by (simp add: extract_observations_def Let_def)
  have d: "distinct (extract_observations P question)"
    if "set (observations P) \<inter> set (map fst special_patterns) = {}"
  proof -
    have "set ?k \<inter> set ?s = {}" using sk ss that by blast
    then have "distinct (?k @ ?s)" using dk ds by simp
    then show ?thesis by (simp add: extract_observations_def Let_def)
  qed
  show ?thesis using c2 d by blast
qed

theorem extraction_occurrences_witness:
  "count_list (extract_observations (projr (construct remdups tie_table)) ''k = 1'') ''k'' \<le> 2 \<and>
   distinct (extract_observations (projr (construct remdups tie_table)) ''k = 1'')"
proof -
  have "observations (projr (construct remdups tie_table)) = [''k'', ''m'']"
    by code_simp
  then have "set (observations (projr (construct remdups tie_table))) \<inter> set (map fst special_patterns) = {}"
    by (simp add: special_patterns_keys)
  then show ?thesis
    using extraction_occurrences [of "projr (construct remdups tie_table)" "''k = 1''"] by blast
qed

subsection \<open>A zero sum of the raw scores\<close>

text \<open>
  Claim C4 says that a zero sum of the raw scores is detected and reported as an error.
  It is not: on the table whose first keyword list has a repetition the raw scores of the
  question \<^verbatim>\<open>b\<close> are \<open>- 1 / 15\<close> and \<open>1 / 15\<close>, their sum is zero, and the
  analysis returns a result whose probabilities are the two infinities.
\<close>

theorem posterior_zero_sum:
  "construct remdups zero_table = Inr zero_params \<and>
   extract_observations zero_params (py_lower ''b'') = [''b''] \<and>
   viterbi zero_params [''b''] = Inr (1 / 15, [''c2'']) \<and>
   traverse (score_entry zero_table zero_params [''b''] [''c2'']) (states zero_params) =
     Inr [(''c1'', - (1 / 15), 1 / 2), (''c2'', 1 / 15, 1 / 2)] \<and>
   total_score [(''c1'', - (1 / 15), 1 / 2), (''c2'', 1 / 15, 1 / 2)] = 0 \<and>
   analyze_question zero_table zero_params ''b'' =
     Inr (Analysis
       \<lparr>main_concept = ''c2'', confidence = 1 / 15, res_prerequisites = [],
        related_concepts =
          [\<lparr>rc_concept = ''c2'', rc_probability = PosInf, rc_difficulty = 1 / 2\<rparr>,
           \<lparr>rc_concept = ''c1'', rc_probability = NegInf, rc_difficulty = 1 / 2\<rparr>],
        res_observations = [''b'']\<rparr>)"
  using zero_constructs zero_observations zero_viterbi zero_scores zero_total zero_analysis
  by (simp only: simp_thms)

text \<open>
  Claim C4, amended. The scoring has no guard. Whenever an analysis past the shortcut
  returns, every raw score has been divided by the sum of the raw scores, whatever the
  sum is; when the sum is zero every probability of the result is an infinity or NaN.
\<close>

theorem posterior_unguarded:
  assumes res: "analyze_question concepts P question = Inr (Analysis r)"
    and ns: "res_observations r \<noteq> [''operand'']"
  shows "\<exists>prob state_sequence scored.
           viterbi P (res_observations r) = Inr (prob, state_sequence) \<and>
           traverse (score_entry concepts P (res_observations r) state_sequence) (states P) =
             Inr scored \<and>
           mset (related_concepts r) = mset (map (normalized (total_score scored)) scored) \<and>
           (\<forall>e\<in>set (related_concepts r).
              \<exists>x\<in>set scored. rc_concept e = fst x \<and>
                rc_probability e = np_div (fst (snd x)) (total_score scored)) \<and>
           (total_score scored = 0 \<longrightarrow>
              (\<forall>e\<in>set (related_concepts r). rc_probability e \<in> {PosInf, NegInf, NaN}))"
proof -
  obtain prob seq scored where vit: "viterbi P (res_observations r) = Inr (prob, seq)"
    and sc: "traverse (score_entry concepts P (res_observations r) seq) (states P) = Inr scored"
    and rel: "related_concepts r = sort_desc (map (normalized (total_score scored)) scored)"
    using analyze_question_AnalysisD [OF res ns] by blast
  let ?ts = "total_score scored"
  have ms: "mset (related_concepts r) = mset (map (normalized ?ts) scored)"
    unfolding rel by (rule sort_desc_mset)
  then have set_eq: "set (related_concepts r) = set (map (normalized ?ts) scored)"
    by (metis set_mset_mset)
  have each: "\<exists>x\<in>set scored. rc_concept e = fst x \<and> rc_probability e = np_div (fst (snd x)) ?ts"
    if mem: "e \<in> set (related_concepts r)" for e
  proof -
    obtain x where "x \<in> set scored" "e = normalized ?ts x" using mem set_eq by auto
    then show ?thesis by (auto simp: normalized_simps)
  qed
  have inf: "rc_probability e \<in> {PosInf, NegInf, NaN}"
    if z: "?ts = 0" and mem: "e \<in> set (related_concepts r)" for e
  proof -
    obtain x where "rc_probability e = np_div (fst (snd x)) ?ts" using each [OF mem] by auto
    then show ?thesis using z by (simp add: np_div_def)
  qed
  show ?thesis
    apply (rule exI [of _ prob], rule exI [of _ seq], rule exI [of _ scored])
    using vit sc ms each inf by blast
qed

theorem posterior_unguarded_witness:
  "\<exists>prob state_sequence scored.
     viterbi zero_params [''b''] = Inr (prob, state_sequence) \<and>
     traverse (score_entry zero_table zero_params [''b''] state_sequence) (states zero_params) =
       Inr scored \<and>
     (total_score scored = 0 \<longrightarrow> PosInf \<in> {PosInf, NegInf, NaN})"
  using posterior_unguarded [OF zero_analysis] by simp blast

subsection \<open>The transition table\<close>

text \<open>
  Claim C5. The transition from a state \<open>A\<close> to another state \<open>B\<close> is
  \<open>(0.9 / n) * 0.3 * effProb B\<close> when \<open>B\<close> is among the parents and children of
  \<open>A\<close>, \<open>n\<close> being the number of these, and the children of a concept are the
  concepts that name it as a prerequisite. The table is built from the children that the
  network holds, and \<open>build_network\<close> loses children: the node it makes for a
  prerequisite that is not declared yet is replaced, children and all, when the
  prerequisite is declared. On the table \<open>c\<close> (with the prerequisite \<open>a\<close>),
  \<open>a\<close>, \<open>d\<close> the node of \<open>a\<close> has no child, and the transition from \<open>a\<close> to
  its child \<open>c\<close> is \<open>3 / 400\<close>, the value of a state that is not connected, where the
  claim gives \<open>27 / 200\<close>; the transition from \<open>c\<close> to its parent \<open>a\<close> is
  \<open>27 / 200\<close>.
\<close>

theorem forward_reference_transition:
  "construct remdups forward_table = Inr forward_params \<and>
   states forward_params = [''c'', ''a'', ''d''] \<and>
   map_option prerequisites (map_of forward_table ''c'') = Some [''a''] \<and>
   dependents forward_table ''a'' = [''c''] \<and>
   build_network forward_table ''a'' = Some \<lparr>children = [], parents = []\<rparr> \<and>
   build_network forward_table ''c'' = Some \<lparr>children = [], parents = [''a'']\<rparr> \<and>
   map_option (\<lambda>row. row ''c'') (transition_matrix forward_params ''a'') = Some (Some (3 / 400)) \<and>
   map_option (\<lambda>row. row ''a'') (transition_matrix forward_params ''c'') = Some (Some (27 / 200)) \<and>
   0.9 / real (card {''c''}) * 0.3 * effProb (mk_concept ''c'' [''m''] [''a''] 0.5 0.5) = 27 / 200"
  using forward_constructs forward_states forward_prerequisites forward_dependents
    forward_node_a forward_node_c forward_transition_a_c forward_transition_c_a forward_claimed
  by (simp only: simp_thms)

subsection \<open>The emission table\<close>



subsection \<open>The start distribution\<close>

text \<open>
  Claim C7. When the parameters have been built from a table with at least one concept,
  the start probability of every concept \<open>c\<close> is \<open>prior c\<close> divided by the sum of
  \<open>prior\<close> over all concepts, where \<open>prior c\<close> is the probability prior if it is
  positive and \<open>1 - difficulty c\<close> otherwise; and the start probabilities of all states
  sum to 1 (in exact arithmetic).
\<close>

theorem start_distribution:
  assumes init: "initialize_hmm set_list concepts net = Inr P"
    and dist: "distinct (map fst concepts)"
    and ne: "concepts \<noteq> []"
  shows "(\<forall>item\<in>set concepts.
            start_probabilities P (fst item) = Some (prior (snd item) / total_prob concepts)) \<and>
         (\<Sum>c\<leftarrow>states P. the (start_probabilities P c)) = 1"
proof -
  have each: "start_probabilities P (fst item) = Some (prior (snd item) / total_prob concepts)"
    if "item \<in> set concepts" for item
    using initialize_start(2) [OF init dist, of "fst item" "snd item"] that by simp
  obtain item where "item \<in> set concepts" using ne by (cases concepts) auto
  then have nz: "total_prob concepts \<noteq> 0"
    using initialize_start(1) [OF init dist, of "fst item" "snd item"] by simp
  have "map (\<lambda>c. the (start_probabilities P c)) (states P) =
        map (\<lambda>item. prior (snd item) / total_prob concepts) concepts"
    using each by (simp add: initialize_hmm_InrD(1) [OF init] comp_def)
  then have "(\<Sum>c\<leftarrow>states P. the (start_probabilities P c)) =
        total_prob concepts / total_prob concepts"
    by (simp add: sum_list_divide total_prob_def)
  then show ?thesis using each nz by simp
qed

theorem start_distribution_witness:
  "(\<Sum>c\<leftarrow>states (projr (construct remdups curriculum)).
       the (start_probabilities (projr (construct remdups curriculum)) c)) = 1 \<and>
   start_probabilities (projr (construct remdups curriculum)) ''linear_equations'' = Some (3 / 11)"
proof -
  have ne: "curriculum \<noteq> []" by (simp add: curriculum_def)
  have mem: "(''linear_equations'', mk_concept ''linear_equations''
         [''linear'', ''x'', ''variable'', ''constant'', ''unknown'', ''expression'',
          ''linear equation'']
         [''basic_arithmetic''] 0.4 0.3) \<in> set curriculum" by (simp add: curriculum_def)
  have tp: "total_prob curriculum = 11 / 10"
    by (simp add: total_prob_def curriculum_def prior_def mk_concept_def)
  from start_distribution [OF curriculum_initialize curriculum_distinct ne] mem tp show ?thesis
    by (auto simp: prior_def mk_concept_def)
qed

subsection \<open>The operand shortcut\<close>

text \<open>
  Claim C8. When the observations extracted from the (lower-cased) question are exactly
  the single symbol \<open>operand\<close>, the analysis returns the fixed response whatever the
  parameters are, so without decoding or scoring: main concept \<open>basic_arithmetic\<close>,
  confidence 1, no prerequisites and one related concept, \<open>basic_arithmetic\<close> at
  probability 1.
\<close>

theorem operand_shortcut:
  assumes "extract_observations P (py_lower question) = [''operand'']"
  shows "analyze_question concepts P question =
           Inr (Analysis
             \<lparr>main_concept = ''basic_arithmetic'', confidence = 1, res_prerequisites = [],
              related_concepts =
                [\<lparr>rc_concept = ''basic_arithmetic'', rc_probability = Finite 1,
                  rc_difficulty = 0.2\<rparr>],
              res_observations = [''operand'']\<rparr>)"
  using assms by (simp add: analyze_question_def operand_response_def)

theorem operand_shortcut_witness:
  "analyze_question curriculum (projr (construct remdups curriculum)) ''42 99'' =
     Inr (Analysis
       \<lparr>main_concept = ''basic_arithmetic'', confidence = 1, res_prerequisites = [],
        related_concepts =
          [\<lparr>rc_concept = ''basic_arithmetic'', rc_probability = Finite 1, rc_difficulty = 0.2\<rparr>],
        res_observations = [''operand'']\<rparr>)"
  by (rule operand_shortcut [OF curriculum_digits])

subsection \<open>The ranking of the related concepts\<close>




subsection \<open>Division by zero in the construction\<close>

text \<open>
  Claim C10 says that a concept whose keywords cover the whole vocabulary makes the
  construction fail with a division error. It does not: the quotient
  \<open>0.2 / (size of the vocabulary - number of keywords)\<close> is evaluated only for a
  symbol outside the keywords of the concept, and there is none.
\<close>

theorem cover_table_constructs:
  "set (keywords (snd (hd cover_table))) = set (vocabulary remdups cover_table) \<and>
   \<not> isl (construct remdups cover_table)"
proof -
  have "set (keywords (snd (hd cover_table))) = set (vocabulary remdups cover_table)"
    by (auto simp: cover_table_def mk_concept_def vocabulary_def)
  moreover have "\<not> isl (construct remdups cover_table)" by code_simp
  ultimately show ?thesis by simp
qed

text \<open>
  Claim C10, amended. For a table with distinct ids the construction fails, and then with
  a division error, exactly when the table is not empty and the priors sum to zero, or it
  has exactly one concept, or some concept has a vocabulary symbol outside its keywords
  while its keyword list is as long as the vocabulary (which takes a repeated keyword).
  Otherwise it produces the tables.
\<close>

theorem construct_division_error:
  assumes "distinct (map fst concepts)"
  shows "if concepts \<noteq> [] \<and>
            (total_prob concepts = 0 \<or> length concepts = 1 \<or>
             (\<exists>item\<in>set concepts. \<exists>obs\<in>set (vocabulary set_list concepts).
                obs \<notin> set (keywords (snd item)) \<and>
                length (keywords (snd item)) = length (vocabulary set_list concepts)))
         then construct set_list concepts = Inl ZeroDivisionError
         else \<exists>P. construct set_list concepts = Inr P"
  using construct_fails [OF assms, of set_list] construct_succeeds [OF assms, of set_list]
  unfolding division_fails_def by (simp only: split: if_splits) blast

theorem construct_division_error_witness:
  "construct remdups [(''c1'', mk_concept ''c1'' [''a''] [] 0.5 0.5)] = Inl ZeroDivisionError \<and>
   construct remdups
     [(''c1'', mk_concept ''c1'' [''a'', ''a''] [] 0.5 0.5),
      (''c2'', mk_concept ''c2'' [''b''] [] 0.5 0.5)] = Inl ZeroDivisionError \<and>
   (\<exists>P. construct remdups cover_table = Inr P)"
proof -
  have 1: "construct remdups [(''c1'', mk_concept ''c1'' [''a''] [] 0.5 0.5)] = Inl ZeroDivisionError"
    using construct_division_error [of "[(''c1'', mk_concept ''c1'' [''a''] [] 0.5 0.5)]" remdups]
    by simp
  have 2: "construct remdups
     [(''c1'', mk_concept ''c1'' [''a'', ''a''] [] 0.5 0.5),
      (''c2'', mk_concept ''c2'' [''b''] [] 0.5 0.5)] = Inl ZeroDivisionError"
    using construct_division_error [of "[(''c1'', mk_concept ''c1'' [''a'', ''a''] [] 0.5 0.5),
      (''c2'', mk_concept ''c2'' [''b''] [] 0.5 0.5)]" remdups]
    by (simp add: vocabulary_def mk_concept_def)
  have 3: "\<exists>P. construct remdups cover_table = Inr P"
    using construct_division_error [of cover_table remdups]
    by (simp add: cover_table_def vocabulary_def mk_concept_def total_prob_def prior_def)
  show ?thesis using 1 2 3 by blast
qed

end
